theory Spec2Isabelle
  imports Main "HOL-Library.Word"
begin

section \<open>JavaScript values used by WebMonitor\<close>

text \<open>
  A JavaScript string is a sequence of 16-bit code units. Source literals are written as
  Isabelle string literals and converted by \<open>js\<close>; all literals of \<^verbatim>\<open>src/index.js\<close>
  that are modelled here are ASCII.
\<close>

type_synonym jsstring = "16 word list"

definition js :: "string \<Rightarrow> jsstring" where
  "js s = map (\<lambda>c. of_nat (of_char c)) s"

text \<open>Object references are addresses into an explicit store.\<close>

type_synonym ref = nat

text \<open>The exceptions the modelled code can raise.\<close>

datatype jserror = TypeError | URIError

section \<open>Header stripper: \<open>WebMonitor.setupMain\<close>\<close>

text \<open>
  A header object (\<^verbatim>\<open>details.responseHeaders\<close>) is a plain object whose own enumerable
  properties are header names mapped to arrays of strings. It is modelled as a list of
  key/value pairs in property enumeration order. The \<^verbatim>\<open>details\<close> object of a response
  holds a reference to its header object. The main process owns a store of both kinds of
  object, and the log of the calls made to the host's continuation \<^verbatim>\<open>callback\<close>.
\<close>

type_synonym headers = "(jsstring \<times> jsstring list) list"

record details =
  responseHeaders :: "ref option"  \<comment> \<open>\<open>None\<close>: the property is \<^verbatim>\<open>undefined\<close>\<close>

datatype callback_call = Callback ref  \<comment> \<open>\<^verbatim>\<open>callback({ responseHeaders: headers })\<close>\<close>

record main_state =
  details_objs :: "ref \<Rightarrow> details"
  header_objs :: "ref \<Rightarrow> headers"
  next_obj :: ref
  callback_calls :: "callback_call list"

definition headersToRemove :: "jsstring list" where
  "headersToRemove =
     [js ''x-frame-options'',
      js ''X-Frame-Options'',
      js ''content-security-policy'',
      js ''Content-Security-Policy'',
      js ''content-security-policy-report-only'',
      js ''Content-Security-Policy-Report-Only'']"

text \<open>\<^verbatim>\<open>{ ...obj }\<close>: a fresh object with the own enumerable properties of \<open>obj\<close>;
  spreading \<^verbatim>\<open>undefined\<close> gives the empty object.\<close>

definition spread_headers :: "ref option \<Rightarrow> main_state \<Rightarrow> ref \<times> main_state" where
  "spread_headers src st =
     (let props = (case src of None \<Rightarrow> [] | Some r \<Rightarrow> header_objs st r);
          h = next_obj st
      in (h, st\<lparr>header_objs := (header_objs st)(h := props), next_obj := Suc h\<rparr>))"

text \<open>\<^verbatim>\<open>delete headers[h]\<close> on the object at address \<open>r\<close>.\<close>

definition delete_prop :: "ref \<Rightarrow> jsstring \<Rightarrow> main_state \<Rightarrow> main_state" where
  "delete_prop r k st =
     st\<lparr>header_objs := (header_objs st)(r := filter (\<lambda>p. fst p \<noteq> k) (header_objs st r))\<rparr>"

text \<open>The listener passed to \<^verbatim>\<open>onHeadersReceived\<close> (lines 36--50); \<open>d\<close> is the
  reference to the \<^verbatim>\<open>details\<close> object.\<close>

definition headersReceived_listener :: "ref \<Rightarrow> main_state \<Rightarrow> main_state" where
  "headersReceived_listener d st =
     (let (hdrs, st1) = spread_headers (responseHeaders (details_objs st d)) st;
          st2 = foldl (\<lambda>s h. delete_prop hdrs h s) st1 headersToRemove
      in st2\<lparr>callback_calls := callback_calls st2 @ [Callback hdrs]\<rparr>)"

text \<open>The host's session holds at most one listener for received headers;
  \<open>setupMain\<close> installs the one above.\<close>

record session =
  onHeadersReceived :: "(ref \<Rightarrow> main_state \<Rightarrow> main_state) option"

definition setupMain :: "session \<Rightarrow> session" where
  "setupMain ses = ses\<lparr>onHeadersReceived := Some headersReceived_listener\<rparr>"

text \<open>What the host does with an intercepted response: it runs the installed listener.\<close>

definition intercept :: "session \<Rightarrow> ref \<Rightarrow> main_state \<Rightarrow> main_state" where
  "intercept ses d st = (case onHeadersReceived ses of None \<Rightarrow> st | Some f \<Rightarrow> f d st)"

text \<open>The entries of \<^verbatim>\<open>details.responseHeaders\<close>; none when the property is \<^verbatim>\<open>undefined\<close>.\<close>

definition source_headers :: "ref \<Rightarrow> main_state \<Rightarrow> headers" where
  "source_headers d st =
     (case responseHeaders (details_objs st d) of None \<Rightarrow> [] | Some r \<Rightarrow> header_objs st r)"

section \<open>Numbers\<close>

text \<open>
  A JavaScript number is an IEEE 754 double. The tab counter and the tab ids are numbers
  with integer values, modelled as integers; what the double does to them is written
  out. \<^verbatim>\<open>++this.tabCounter\<close> adds 1 and rounds the sum to the nearest double, ties to the
  even significand. A double has 53 significant bits: below \<open>2^53 = 9007199254740992\<close>
  the doubles are one apart and every integer is a double; from \<open>2^53\<close> on they are
  \<open>ulp\<close> apart, which doubles with each power of two. So the increment is exact up to the
  value \<open>2^53\<close>, and at \<open>2^53\<close> the sum \<open>2^53 + 1\<close> is rounded back to \<open>2^53\<close>: the counter
  stays there. (The overflow to \<^verbatim>\<open>Infinity\<close> beyond the largest double is left out; a counter
  started at 0 never passes \<open>2^53\<close>.)
\<close>

fun ulp :: "nat \<Rightarrow> nat" where
  "ulp n = (if n < 9007199254740992 then 1 else 2 * ulp (n div 2))"

declare ulp.simps [simp del]

definition roundNat :: "nat \<Rightarrow> nat" where
  "roundNat n =
     (let u = ulp n; q = n div u; r = n mod u
      in if 2 * r < u then q * u
         else if u < 2 * r then (q + 1) * u
         else if even q then q * u
         else (q + 1) * u)"

definition toDouble :: "int \<Rightarrow> int" where
  "toDouble x = (if x < 0 then - int (roundNat (nat (- x))) else int (roundNat (nat x)))"

definition increment :: "int \<Rightarrow> int" where  \<comment> \<open>the value of \<^verbatim>\<open>++c\<close>\<close>
  "increment c = toDouble (c + 1)"

section \<open>Built-in string operations\<close>

subsection \<open>Number to string\<close>

text \<open>
  \<^verbatim>\<open>`${id}`\<close> prints an integer in decimal, with a minus sign when negative (for
  magnitudes below \<open>10^21\<close>, which covers every value of the counter).
\<close>

fun digits :: "nat \<Rightarrow> jsstring" where
  "digits n = (if n < 10 then [of_nat (48 + n)] else digits (n div 10) @ [of_nat (48 + n mod 10)])"

declare digits.simps [simp del]

definition numToString :: "int \<Rightarrow> jsstring" where
  "numToString i = (if i < 0 then js ''-'' @ digits (nat (- i)) else digits (nat i))"

subsection \<open>\<^verbatim>\<open>encodeURIComponent\<close>\<close>

text \<open>
  ECMAScript \<^verbatim>\<open>Encode(string, unescapedSet)\<close>: a code unit of the unreserved set is kept;
  any other code point is written as the percent-escaped octets of its UTF-8 encoding;
  an unpaired surrogate raises \<^verbatim>\<open>URIError\<close>.
\<close>

definition inRange :: "char \<Rightarrow> char \<Rightarrow> 16 word \<Rightarrow> bool" where
  "inRange a b x = (of_nat (of_char a) \<le> x \<and> x \<le> of_nat (of_char b))"

definition uriUnescaped :: "16 word \<Rightarrow> bool" where
  "uriUnescaped x =
     (inRange CHR ''a'' CHR ''z'' x \<or> inRange CHR ''A'' CHR ''Z'' x \<or> inRange CHR ''0'' CHR ''9'' x
      \<or> x \<in> set (js ''-_.!~*'' @ [0x27] @ js ''()''))"

definition isLeadSurrogate :: "16 word \<Rightarrow> bool" where
  "isLeadSurrogate x = (0xD800 \<le> x \<and> x \<le> 0xDBFF)"

definition isTrailSurrogate :: "16 word \<Rightarrow> bool" where
  "isTrailSurrogate x = (0xDC00 \<le> x \<and> x \<le> 0xDFFF)"

definition utf8 :: "nat \<Rightarrow> nat list" where
  "utf8 cp =
     (if cp < 0x80 then [cp]
      else if cp < 0x800 then [0xC0 + cp div 64, 0x80 + cp mod 64]
      else if cp < 0x10000 then [0xE0 + cp div 4096, 0x80 + cp div 64 mod 64, 0x80 + cp mod 64]
      else [0xF0 + cp div 262144, 0x80 + cp div 4096 mod 64, 0x80 + cp div 64 mod 64,
            0x80 + cp mod 64])"

definition hexDigit :: "nat \<Rightarrow> 16 word" where
  "hexDigit n = of_nat (if n < 10 then 48 + n else 55 + n)"

definition percentOctet :: "nat \<Rightarrow> jsstring" where
  "percentOctet b = [0x25, hexDigit (b div 16), hexDigit (b mod 16)]"

definition percentEncode :: "nat \<Rightarrow> jsstring" where
  "percentEncode cp = concat (map percentOctet (utf8 cp))"

definition surrogatePair :: "16 word \<Rightarrow> 16 word \<Rightarrow> nat" where
  "surrogatePair hi lo = (unat hi - 0xD800) * 0x400 + (unat lo - 0xDC00) + 0x10000"

definition consR :: "jsstring \<Rightarrow> jserror + jsstring \<Rightarrow> jserror + jsstring" where
  "consR xs r = (case r of Inl e \<Rightarrow> Inl e | Inr ys \<Rightarrow> Inr (xs @ ys))"

fun encodeURIComponent :: "jsstring \<Rightarrow> jserror + jsstring" where
  "encodeURIComponent [] = Inr []"
| "encodeURIComponent [c] =
     (if uriUnescaped c then Inr [c]
      else if isLeadSurrogate c \<or> isTrailSurrogate c then Inl URIError
      else Inr (percentEncode (unat c)))"
| "encodeURIComponent (c # d # cs) =
     (if uriUnescaped c then consR [c] (encodeURIComponent (d # cs))
      else if isTrailSurrogate c then Inl URIError
      else if isLeadSurrogate c then
        (if isTrailSurrogate d then consR (percentEncode (surrogatePair c d)) (encodeURIComponent cs)
         else Inl URIError)
      else consR (percentEncode (unat c)) (encodeURIComponent (d # cs)))"

text \<open>\<^verbatim>\<open>String.prototype.isWellFormed\<close>: no unpaired surrogate.\<close>

fun isWellFormed :: "jsstring \<Rightarrow> bool" where
  "isWellFormed [] = True"
| "isWellFormed [c] = (\<not> isLeadSurrogate c \<and> \<not> isTrailSurrogate c)"
| "isWellFormed (c # d # cs) =
     (if isLeadSurrogate c then isTrailSurrogate d \<and> isWellFormed cs
      else \<not> isTrailSurrogate c \<and> isWellFormed (d # cs))"

subsection \<open>HTML text serialisation\<close>

text \<open>
  \<open>_escapeHtml\<close> stores the text in a detached \<^verbatim>\<open>div\<close> through \<^verbatim>\<open>textContent\<close> and reads
  \<^verbatim>\<open>innerHTML\<close> back. The HTML fragment serialisation of a text node replaces
  \<^verbatim>\<open>&\<close>, U+00A0, \<^verbatim>\<open><\<close> and \<^verbatim>\<open>>\<close> by \<^verbatim>\<open>&amp;\<close>, \<^verbatim>\<open>&nbsp;\<close>, \<^verbatim>\<open>&lt;\<close> and \<^verbatim>\<open>&gt;\<close>
  and keeps every other code unit.
\<close>

definition escapeUnit :: "16 word \<Rightarrow> jsstring" where
  "escapeUnit c =
     (if c = 0x26 then js ''&amp;''
      else if c = 0xA0 then js ''&nbsp;''
      else if c = 0x3C then js ''&lt;''
      else if c = 0x3E then js ''&gt;''
      else [c])"

definition escapeHtml :: "jsstring \<Rightarrow> jsstring" where
  "escapeHtml text = concat (map escapeUnit text)"

subsection \<open>Regular expressions\<close>

text \<open>
  The three regular expression literals of the source use only literals, character
  classes, grouping, alternation and the greedy quantifiers \<^verbatim>\<open>?\<close>, \<^verbatim>\<open>+\<close>, \<^verbatim>\<open>*\<close>, \<^verbatim>\<open>{2,}\<close>,
  without flags. For such an expression \<^verbatim>\<open>test\<close> and \<^verbatim>\<open>match\<close> succeed exactly when some
  string of its language occurs at the anchored position, so they are decided here by
  derivatives.
\<close>

datatype rexp =
    Zero
  | One
  | Atom "16 word \<Rightarrow> bool"
  | Plus rexp rexp
  | Times rexp rexp
  | Star rexp

fun nullable :: "rexp \<Rightarrow> bool" where
  "nullable Zero = False"
| "nullable One = True"
| "nullable (Atom p) = False"
| "nullable (Plus r s) = (nullable r \<or> nullable s)"
| "nullable (Times r s) = (nullable r \<and> nullable s)"
| "nullable (Star r) = True"

fun deriv :: "16 word \<Rightarrow> rexp \<Rightarrow> rexp" where
  "deriv c Zero = Zero"
| "deriv c One = Zero"
| "deriv c (Atom p) = (if p c then One else Zero)"
| "deriv c (Plus r s) = Plus (deriv c r) (deriv c s)"
| "deriv c (Times r s) =
     (if nullable r then Plus (Times (deriv c r) s) (deriv c s) else Times (deriv c r) s)"
| "deriv c (Star r) = Times (deriv c r) (Star r)"

text \<open>The language of an expression: the strings it matches from start to end.\<close>

inductive_set iter :: "jsstring set \<Rightarrow> jsstring set" for A :: "jsstring set" where
  iter_empty: "[] \<in> iter A"
| iter_more: "u \<in> A \<Longrightarrow> v \<in> iter A \<Longrightarrow> u @ v \<in> iter A"

fun lang :: "rexp \<Rightarrow> jsstring set" where
  "lang Zero = {}"
| "lang One = {[]}"
| "lang (Atom p) = {[c] | c. p c}"
| "lang (Plus r s) = lang r \<union> lang s"
| "lang (Times r s) = {u @ v | u v. u \<in> lang r \<and> v \<in> lang s}"
| "lang (Star r) = iter (lang r)"

text \<open>\<^verbatim>\<open>/^r$/.test(s)\<close>: the whole input is in the language of \<open>r\<close>.\<close>

fun matchWhole :: "rexp \<Rightarrow> jsstring \<Rightarrow> bool" where
  "matchWhole r [] = nullable r"
| "matchWhole r (c # cs) = matchWhole (deriv c r) cs"

text \<open>\<^verbatim>\<open>s.match(/^r/)\<close> is not null: some prefix of the input is in the language of \<open>r\<close>.\<close>

fun matchPrefix :: "rexp \<Rightarrow> jsstring \<Rightarrow> bool" where
  "matchPrefix r [] = nullable r"
| "matchPrefix r (c # cs) = (nullable r \<or> matchPrefix (deriv c r) cs)"

definition Chr :: "char \<Rightarrow> rexp" where
  "Chr c = Atom (\<lambda>x. x = of_nat (of_char c))"

definition Str :: "string \<Rightarrow> rexp" where
  "Str s = foldr (\<lambda>c r. Times (Chr c) r) s One"

definition Opt :: "rexp \<Rightarrow> rexp" where  \<comment> \<open>\<^verbatim>\<open>r?\<close>\<close>
  "Opt r = Plus r One"

definition Plus1 :: "rexp \<Rightarrow> rexp" where  \<comment> \<open>\<^verbatim>\<open>r+\<close>\<close>
  "Plus1 r = Times r (Star r)"

definition AtLeast2 :: "rexp \<Rightarrow> rexp" where  \<comment> \<open>\<^verbatim>\<open>r{2,}\<close>\<close>
  "AtLeast2 r = Times r (Times r (Star r))"

definition lineTerminator :: "16 word \<Rightarrow> bool" where
  "lineTerminator x = (x = 0x000A \<or> x = 0x000D \<or> x = 0x2028 \<or> x = 0x2029)"

definition Dot :: rexp where  \<comment> \<open>\<^verbatim>\<open>.\<close> without the \<^verbatim>\<open>s\<close> flag\<close>
  "Dot = Atom (\<lambda>x. \<not> lineTerminator x)"

definition Digit :: rexp where  \<comment> \<open>\<^verbatim>\<open>\d\<close>\<close>
  "Digit = Atom (inRange CHR ''0'' CHR ''9'')"

definition schemeRe :: rexp where  \<comment> \<open>\<^verbatim>\<open>https?:\/\/\<close>\<close>
  "schemeRe = Times (Str ''http'') (Times (Opt (Chr CHR ''s'')) (Str ''://''))"

definition pathRe :: rexp where  \<comment> \<open>\<^verbatim>\<open>\/.*\<close>\<close>
  "pathRe = Times (Chr CHR ''/'') (Star Dot)"

definition labelChar :: "16 word \<Rightarrow> bool" where  \<comment> \<open>\<^verbatim>\<open>[a-zA-Z0-9-]\<close>\<close>
  "labelChar x =
     (inRange CHR ''a'' CHR ''z'' x \<or> inRange CHR ''A'' CHR ''Z'' x \<or> inRange CHR ''0'' CHR ''9'' x
      \<or> x = of_nat (of_char CHR ''-''))"

definition letter :: "16 word \<Rightarrow> bool" where  \<comment> \<open>\<^verbatim>\<open>[a-zA-Z]\<close>\<close>
  "letter x = (inRange CHR ''a'' CHR ''z'' x \<or> inRange CHR ''A'' CHR ''Z'' x)"

text \<open>\<^verbatim>\<open>/^(https?:\/\/)?([a-zA-Z0-9-]+\.)+[a-zA-Z]{2,}(\/.*)?$/\<close>\<close>

definition urlPattern :: rexp where
  "urlPattern =
     Times (Opt schemeRe)
    (Times (Plus1 (Times (Plus1 (Atom labelChar)) (Chr CHR ''.'')))
    (Times (AtLeast2 (Atom letter))
           (Opt pathRe)))"

text \<open>\<^verbatim>\<open>/^(https?:\/\/)?(localhost|127\.0\.0\.1)(:\d+)?(\/.*)?$/\<close>\<close>

definition localhostPattern :: rexp where
  "localhostPattern =
     Times (Opt schemeRe)
    (Times (Plus (Str ''localhost'') (Str ''127.0.0.1''))
    (Times (Opt (Times (Chr CHR '':'') (Plus1 Digit)))
           (Opt pathRe)))"

section \<open>The browser shell: class \<open>WebMonitor\<close>\<close>

subsection \<open>State\<close>

text \<open>
  A tab is an object \<^verbatim>\<open>{ id, url, title }\<close>. Tab objects and arrays live in an explicit
  store, because the source shares them: \<^verbatim>\<open>this.tabs\<close> holds references to the tab
  objects, every listener of a webview closes over its tab object, and \<open>getTabs\<close> hands
  references out.
\<close>

record tab =
  tab_id :: int
  tab_url :: jsstring
  tab_title :: jsstring

text \<open>
  A \<^verbatim>\<open><webview>\<close> element of the document: its \<^verbatim>\<open>id\<close> attribute, its \<^verbatim>\<open>src\<close> (unset until
  assigned) and whether its class list contains \<^verbatim>\<open>active\<close>.
\<close>

record webview =
  wv_id :: jsstring
  wv_src :: "jsstring option"
  wv_active :: bool

datatype display = DisplayInitial | DisplayNone | DisplayFlex  \<comment> \<open>\<^verbatim>\<open>style.display\<close>\<close>

record load_error =  \<comment> \<open>the event of \<^verbatim>\<open>did-fail-load\<close>\<close>
  errorCode :: int
  errorDescription :: jsstring

text \<open>
  Calls of the observer callbacks of the options. The callbacks belong to the embedding
  application; the model records each call with its arguments.
\<close>

datatype callback_event =
    OnLoadStart ref
  | OnLoadEnd ref
  | OnError ref load_error
  | OnTitleChange ref jsstring
  | OnNavigate ref jsstring

text \<open>
  The state holds the object store, the fields of the instance (\<^verbatim>\<open>this.tabs\<close>,
  \<^verbatim>\<open>this.activeTabId\<close>, \<^verbatim>\<open>this.tabCounter\<close>), the options the modelled methods read, and the
  part of the document they touch. An element looked up by
  \<^verbatim>\<open>document.getElementById\<close> may be missing (\<open>None\<close>): the markup is there only after
  \<open>init\<close>, the tab strip only with \<open>showTabs\<close>, the status bar only with \<open>showStatusBar\<close>.
  The webviews are all \<^verbatim>\<open><webview>\<close> elements of the document, in document order; new ones
  are appended to \<^verbatim>\<open>#wm-content\<close>, which is taken to be last.
\<close>

record state =
  tab_heap :: "ref \<Rightarrow> tab"
  next_tab :: ref
  arr_heap :: "ref \<Rightarrow> ref list"
  next_arr :: ref
  tabs :: ref                          \<comment> \<open>\<^verbatim>\<open>this.tabs\<close>, a reference to an array\<close>
  activeTabId :: "int option"          \<comment> \<open>\<open>None\<close> is \<^verbatim>\<open>null\<close>\<close>
  tabCounter :: int
  showTabs :: bool
  onLoadStart :: bool                  \<comment> \<open>whether the option holds a callback\<close>
  onLoadEnd :: bool
  onError :: bool
  onTitleChange :: bool
  onNavigate :: bool
  el_content :: bool                   \<comment> \<open>\<^verbatim>\<open>#wm-content\<close> exists\<close>
  el_url_input :: "jsstring option"    \<comment> \<open>\<^verbatim>\<open>#wm-url-input\<close>: its \<^verbatim>\<open>value\<close>\<close>
  el_placeholder :: "display option"   \<comment> \<open>\<^verbatim>\<open>#wm-placeholder\<close>: its \<^verbatim>\<open>style.display\<close>\<close>
  el_tabs_container :: "jsstring option"   \<comment> \<open>\<^verbatim>\<open>#wm-tabs-container\<close>: its \<^verbatim>\<open>innerHTML\<close>\<close>
  el_status_dot :: "jsstring list option"  \<comment> \<open>\<^verbatim>\<open>#wm-status-dot\<close>: its class list\<close>
  el_status_text :: "jsstring option"      \<comment> \<open>\<^verbatim>\<open>#wm-status-text\<close>: its \<^verbatim>\<open>textContent\<close>\<close>
  webviews :: "webview list"
  callback_log :: "callback_event list"

record options =
  opt_showTabs :: bool
  opt_onLoadStart :: bool
  opt_onLoadEnd :: bool
  opt_onError :: bool
  opt_onTitleChange :: bool
  opt_onNavigate :: bool

text \<open>
  The constructor (lines 9--29), run in a world \<open>w\<close> (store and document):
  \<^verbatim>\<open>this.tabs = []\<close> allocates a new array.
\<close>

definition construct :: "options \<Rightarrow> state \<Rightarrow> state" where
  "construct opts w =
     w\<lparr>arr_heap := (arr_heap w)(next_arr w := []),
       next_arr := Suc (next_arr w),
       tabs := next_arr w,
       activeTabId := None,
       tabCounter := 0,
       showTabs := opt_showTabs opts,
       onLoadStart := opt_onLoadStart opts,
       onLoadEnd := opt_onLoadEnd opts,
       onError := opt_onError opts,
       onTitleChange := opt_onTitleChange opts,
       onNavigate := opt_onNavigate opts\<rparr>"

subsection \<open>Reading the tab collection\<close>

definition tabsArray :: "state \<Rightarrow> ref list" where  \<comment> \<open>the elements of \<^verbatim>\<open>this.tabs\<close>\<close>
  "tabsArray s = arr_heap s (tabs s)"

definition tabRecords :: "state \<Rightarrow> tab list" where  \<comment> \<open>the tab objects they refer to\<close>
  "tabRecords s = map (tab_heap s) (tabsArray s)"

text \<open>\<^verbatim>\<open>Array.prototype.findIndex\<close>; \<open>None\<close> is the result \<open>-1\<close>.\<close>

fun findIndex :: "('a \<Rightarrow> bool) \<Rightarrow> 'a list \<Rightarrow> nat option" where
  "findIndex P [] = None"
| "findIndex P (x # xs) = (if P x then Some 0 else map_option Suc (findIndex P xs))"

text \<open>\<^verbatim>\<open>this.tabs.find(t => t.id === id)\<close>; \<open>None\<close> is \<^verbatim>\<open>undefined\<close>.\<close>

definition findTab :: "int option \<Rightarrow> state \<Rightarrow> ref option" where
  "findTab i s = List.find (\<lambda>r. Some (tab_id (tab_heap s r)) = i) (tabsArray s)"

text \<open>\<^verbatim>\<open>tab?.url || ''\<close>\<close>

definition urlOrEmpty :: "ref option \<Rightarrow> state \<Rightarrow> jsstring" where
  "urlOrEmpty t s = (case t of None \<Rightarrow> [] | Some r \<Rightarrow> tab_url (tab_heap s r))"

definition webviewId :: "int \<Rightarrow> jsstring" where  \<comment> \<open>\<^verbatim>\<open>`wm-webview-${id}`\<close>\<close>
  "webviewId i = js ''wm-webview-'' @ numToString i"

subsection \<open>Rendering the tab strip: \<open>_renderTabs\<close>\<close>

definition tabMarkup :: "int option \<Rightarrow> tab \<Rightarrow> jsstring" where
  \<open>tabMarkup active t =
     js ''\<newline>      <div class="wm-tab '' @ (if Some (tab_id t) = active then js ''active'' else [])
     @ js ''" data-tab-id="'' @ numToString (tab_id t)
     @ js ''">\<newline>        <span class="wm-tab-title">'' @ escapeHtml (tab_title t)
     @ js ''</span>\<newline>        <button class="wm-tab-close" data-close-id="'' @ numToString (tab_id t)
     @ js ''">&times;</button>\<newline>      </div>\<newline>    ''\<close>

definition stripMarkup :: "state \<Rightarrow> jsstring" where
  "stripMarkup s = concat (map (tabMarkup (activeTabId s)) (tabRecords s))"

definition renderTabs :: "state \<Rightarrow> state" where
  "renderTabs s =
     (if el_tabs_container s = None \<or> \<not> showTabs s then s
      else s\<lparr>el_tabs_container := Some (stripMarkup s)\<rparr>)"

subsection \<open>\<open>switchTab\<close>\<close>

text \<open>\<^verbatim>\<open>document.getElementById(`wm-webview-${id}`)\<close> is the first element with that id.\<close>

definition activateWebview :: "jsstring \<Rightarrow> webview list \<Rightarrow> webview list" where
  "activateWebview eid wvs =
     (case findIndex (\<lambda>wv. wv_id wv = eid) wvs of
        None \<Rightarrow> wvs
      | Some k \<Rightarrow> wvs[k := (wvs ! k)\<lparr>wv_active := True\<rparr>])"

definition switchTab :: "int \<Rightarrow> state \<Rightarrow> state" where
  "switchTab i s =
     (let s1 = s\<lparr>activeTabId := Some i\<rparr>;
          t = findTab (Some i) s1;
          s2 = s1\<lparr>webviews := map (\<lambda>wv. wv\<lparr>wv_active := False\<rparr>) (webviews s1)\<rparr>;
          s3 = s2\<lparr>webviews := activateWebview (webviewId i) (webviews s2)\<rparr>;
          s4 = s3\<lparr>el_url_input := map_option (\<lambda>_. urlOrEmpty t s3) (el_url_input s3)\<rparr>;
          s5 = s4\<lparr>el_placeholder :=
                  map_option (\<lambda>_. if urlOrEmpty t s4 \<noteq> [] then DisplayNone else DisplayFlex)
                    (el_placeholder s4)\<rparr>
      in renderTabs s5)"

subsection \<open>\<open>newTab\<close>\<close>

text \<open>
  The result of a method that can raise is a pair: the exception or the returned value,
  and the state at that point. \<open>newTab\<close> raises \<^verbatim>\<open>TypeError\<close> at
  \<^verbatim>\<open>document.getElementById('wm-content').appendChild\<close> when the element is missing; the
  counter is incremented and the tab pushed before that. The id is the value of
  \<^verbatim>\<open>++this.tabCounter\<close>.
\<close>

definition newTab :: "jsstring \<Rightarrow> state \<Rightarrow> (jserror + int) \<times> state" where
  "newTab url s =
     (let i = increment (tabCounter s);
          s1 = s\<lparr>tabCounter := i\<rparr>;
          t = next_tab s1;
          s2 = s1\<lparr>tab_heap := (tab_heap s1)(t := \<lparr>tab_id = i, tab_url = url, tab_title = js ''New Tab''\<rparr>),
                  next_tab := Suc t\<rparr>;
          s3 = s2\<lparr>arr_heap := (arr_heap s2)(tabs s2 := tabsArray s2 @ [t])\<rparr>;
          webview = \<lparr>wv_id = webviewId i,
                     wv_src = (if url \<noteq> [] then Some url else None),
                     wv_active = False\<rparr>
      in if \<not> el_content s3 then (Inl TypeError, s3)
         else (Inr i, renderTabs (switchTab i (s3\<lparr>webviews := webviews s3 @ [webview]\<rparr>))))"

subsection \<open>\<open>closeTab\<close>\<close>

text \<open>\<^verbatim>\<open>webview.remove()\<close> on the first element with the given id, if there is one.\<close>

definition removeWebview :: "jsstring \<Rightarrow> webview list \<Rightarrow> webview list" where
  "removeWebview eid wvs =
     (case findIndex (\<lambda>wv. wv_id wv = eid) wvs of
        None \<Rightarrow> wvs
      | Some k \<Rightarrow> take k wvs @ drop (Suc k) wvs)"

definition closeTab :: "int \<Rightarrow> state \<Rightarrow> state" where
  "closeTab i s =
     (case findIndex (\<lambda>r. tab_id (tab_heap s r) = i) (tabsArray s) of
        None \<Rightarrow> s
      | Some index \<Rightarrow>
          (let s1 = s\<lparr>webviews := removeWebview (webviewId i) (webviews s)\<rparr>;
               s2 = s1\<lparr>arr_heap := (arr_heap s1)
                         (tabs s1 := take index (tabsArray s1) @ drop (Suc index) (tabsArray s1))\<rparr>;
               s3 = (if length (tabsArray s2) = 0 then
                       s2\<lparr>activeTabId := None,
                          el_url_input := map_option (\<lambda>_. []) (el_url_input s2),
                          el_placeholder := map_option (\<lambda>_. DisplayFlex) (el_placeholder s2)\<rparr>
                     else if activeTabId s2 = Some i then
                       (let newIndex = min index (length (tabsArray s2) - 1)
                        in switchTab (tab_id (tab_heap s2 (tabsArray s2 ! newIndex))) s2)
                     else s2)
           in renderTabs s3))"

subsection \<open>\<open>_isValidUrl\<close> and \<open>navigate\<close>\<close>

definition isValidUrl :: "jsstring \<Rightarrow> bool" where
  "isValidUrl input = (matchWhole urlPattern input \<or> matchWhole localhostPattern input)"

text \<open>Lines 167--171 of \<open>navigate\<close>: the address the input resolves to.\<close>

definition resolveUrl :: "jsstring \<Rightarrow> jserror + jsstring" where
  "resolveUrl url =
     (if \<not> isValidUrl url then
        consR (js ''https://www.google.com/search?q='') (encodeURIComponent url)
      else if \<not> matchPrefix schemeRe url then Inr (js ''https://'' @ url)
      else Inr url)"

definition setWebviewSrc :: "jsstring \<Rightarrow> jsstring \<Rightarrow> webview list \<Rightarrow> webview list" where
  "setWebviewSrc eid url wvs =
     (case findIndex (\<lambda>wv. wv_id wv = eid) wvs of
        None \<Rightarrow> wvs
      | Some k \<Rightarrow> wvs[k := (wvs ! k)\<lparr>wv_src := Some url\<rparr>])"

text \<open>Lines 173--182: open a tab when none is active, else load in the active tab.\<close>

definition loadUrl :: "jsstring \<Rightarrow> state \<Rightarrow> (jserror + unit) \<times> state" where
  "loadUrl url s =
     (case activeTabId s of
        None \<Rightarrow> (case newTab url s of (Inl e, s') \<Rightarrow> (Inl e, s') | (Inr _, s') \<Rightarrow> (Inr (), s'))
      | Some a \<Rightarrow>
          (case findTab (Some a) s of
             None \<Rightarrow> (Inr (), s)
           | Some t \<Rightarrow>
               (Inr (), s\<lparr>tab_heap := (tab_heap s)(t := (tab_heap s t)\<lparr>tab_url := url\<rparr>),
                         webviews := setWebviewSrc (webviewId a) url (webviews s)\<rparr>)))"

text \<open>The argument is \<open>None\<close> for \<^verbatim>\<open>undefined\<close> (\<^verbatim>\<open>urlInput?.value\<close> without the input).\<close>

definition navigate :: "jsstring option \<Rightarrow> state \<Rightarrow> (jserror + unit) \<times> state" where
  "navigate url s =
     (case url of
        None \<Rightarrow> (Inr (), s)
      | Some u \<Rightarrow>
          if u = [] then (Inr (), s)
          else (case resolveUrl u of
                  Inl e \<Rightarrow> (Inl e, s)
                | Inr url' \<Rightarrow>
                    (case loadUrl url' s of
                       (Inl e, s') \<Rightarrow> (Inl e, s')
                     | (Inr _, s') \<Rightarrow>
                         (Inr (), s'\<lparr>el_placeholder :=
                                       map_option (\<lambda>_. DisplayNone) (el_placeholder s')\<rparr>))))"

subsection \<open>\<open>getCurrentUrl\<close> and \<open>getTabs\<close>\<close>

definition getCurrentUrl :: "state \<Rightarrow> jsstring" where
  "getCurrentUrl s = urlOrEmpty (findTab (activeTabId s) s) s"

text \<open>\<^verbatim>\<open>[...this.tabs]\<close>: a new array with the same elements.\<close>

definition getTabs :: "state \<Rightarrow> ref \<times> state" where
  "getTabs s =
     (let a = next_arr s
      in (a, s\<lparr>arr_heap := (arr_heap s)(a := tabsArray s), next_arr := Suc a\<rparr>))"

text \<open>
  What a caller can do with the result of \<open>getTabs\<close>: replace the contents of the array
  it was given (any of \<^verbatim>\<open>push\<close>, \<^verbatim>\<open>pop\<close>, \<^verbatim>\<open>splice\<close>, index assignment), and assign the fields
  of a tab object it reads from the array.
\<close>

definition writeArray :: "ref \<Rightarrow> ref list \<Rightarrow> state \<Rightarrow> state" where
  "writeArray a xs s = s\<lparr>arr_heap := (arr_heap s)(a := xs)\<rparr>"

definition writeTab :: "ref \<Rightarrow> tab \<Rightarrow> state \<Rightarrow> state" where
  "writeTab r t s = s\<lparr>tab_heap := (tab_heap s)(r := t)\<rparr>"

subsection \<open>Webview events: \<open>_attachWebviewEvents\<close> and \<open>_setStatus\<close>\<close>

datatype status_type = Loading | Ready | Error  \<comment> \<open>\<^verbatim>\<open>'loading'\<close>, \<^verbatim>\<open>'ready'\<close>, \<^verbatim>\<open>'error'\<close>\<close>

definition setStatus :: "status_type \<Rightarrow> jsstring \<Rightarrow> state \<Rightarrow> state" where
  "setStatus type text s =
     (let s1 = s\<lparr>el_status_dot :=
                  map_option (\<lambda>_. [js ''wm-status-dot'']
                                   @ (if type = Loading then [js ''loading''] else [])
                                   @ (if type = Error then [js ''error''] else []))
                    (el_status_dot s)\<rparr>
      in s1\<lparr>el_status_text := map_option (\<lambda>_. text) (el_status_text s1)\<rparr>)"

text \<open>
  The listeners that \<open>_attachWebviewEvents\<close> registers on the webview of the tab object
  \<open>t\<close>; the host runs them when the webview emits the event.
\<close>

definition did_start_loading :: "ref \<Rightarrow> state \<Rightarrow> state" where
  "did_start_loading t s =
     (let s1 = setStatus Loading (js ''Loading...'') s
      in if onLoadStart s1 then s1\<lparr>callback_log := callback_log s1 @ [OnLoadStart t]\<rparr> else s1)"

definition did_stop_loading :: "ref \<Rightarrow> state \<Rightarrow> state" where
  "did_stop_loading t s =
     (let s1 = setStatus Ready (js ''Ready'') s
      in if onLoadEnd s1 then s1\<lparr>callback_log := callback_log s1 @ [OnLoadEnd t]\<rparr> else s1)"

definition did_fail_load :: "ref \<Rightarrow> load_error \<Rightarrow> state \<Rightarrow> state" where
  "did_fail_load t e s =
     (if errorCode e \<noteq> - 3 then
        (let s1 = setStatus Error (js ''Error: '' @ errorDescription e) s
         in if onError s1 then s1\<lparr>callback_log := callback_log s1 @ [OnError t e]\<rparr> else s1)
      else s)"

definition page_title_updated :: "ref \<Rightarrow> jsstring \<Rightarrow> state \<Rightarrow> state" where
  "page_title_updated t title s =
     (let s1 = s\<lparr>tab_heap := (tab_heap s)
                    (t := (tab_heap s t)\<lparr>tab_title := (if title \<noteq> [] then title else js ''Untitled'')\<rparr>)\<rparr>;
          s2 = renderTabs s1
      in if onTitleChange s2 then s2\<lparr>callback_log := callback_log s2 @ [OnTitleChange t title]\<rparr>
         else s2)"

definition did_navigate :: "ref \<Rightarrow> jsstring \<Rightarrow> state \<Rightarrow> state" where
  "did_navigate t url s =
     (let s1 = s\<lparr>tab_heap := (tab_heap s)(t := (tab_heap s t)\<lparr>tab_url := url\<rparr>)\<rparr>;
          s2 = (if activeTabId s1 = Some (tab_id (tab_heap s1 t))
                then s1\<lparr>el_url_input := map_option (\<lambda>_. url) (el_url_input s1)\<rparr> else s1)
      in if onNavigate s2 then s2\<lparr>callback_log := callback_log s2 @ [OnNavigate t url]\<rparr> else s2)"

subsection \<open>Sequences of calls\<close>

datatype call = NewTab jsstring | CloseTab int

text \<open>
  Running a sequence of calls; a caller that catches the exception of a \<open>newTab\<close> goes on
  with the state the exception left. \<open>returnedIds\<close> are the values the calls of \<open>newTab\<close>
  returned, in call order; \<open>closedCount\<close> counts the calls of \<open>closeTab\<close> that found their
  tab.
\<close>

fun run :: "call list \<Rightarrow> state \<Rightarrow> state" where
  "run [] s = s"
| "run (NewTab url # cs) s = run cs (snd (newTab url s))"
| "run (CloseTab i # cs) s = run cs (closeTab i s)"

fun returnedIds :: "call list \<Rightarrow> state \<Rightarrow> int list" where
  "returnedIds [] s = []"
| "returnedIds (NewTab url # cs) s =
     (case newTab url s of
        (Inl e, s') \<Rightarrow> returnedIds cs s'
      | (Inr i, s') \<Rightarrow> i # returnedIds cs s')"
| "returnedIds (CloseTab i # cs) s = returnedIds cs (closeTab i s)"

fun openedCount :: "call list \<Rightarrow> nat" where
  "openedCount [] = 0"
| "openedCount (NewTab url # cs) = Suc (openedCount cs)"
| "openedCount (CloseTab i # cs) = openedCount cs"

fun closedCount :: "call list \<Rightarrow> state \<Rightarrow> nat" where
  "closedCount [] s = 0"
| "closedCount (NewTab url # cs) s = closedCount cs (snd (newTab url s))"
| "closedCount (CloseTab i # cs) s =
     (if findIndex (\<lambda>r. tab_id (tab_heap s r) = i) (tabsArray s) \<noteq> None then 1 else 0)
     + closedCount cs (closeTab i s)"

section \<open>Example states\<close>

text \<open>
  Concrete states on which the properties below are instantiated. \<open>mountedDocument\<close> is a
  document that holds the markup of \<open>_getHTML\<close> for the default options and no tab yet;
  the other states are reached from it by the constructor and calls of \<open>newTab\<close>.
\<close>

definition blankTab :: tab where
  "blankTab = \<lparr>tab_id = 0, tab_url = [], tab_title = []\<rparr>"

definition mountedDocument :: state where
  "mountedDocument =
     \<lparr>tab_heap = (\<lambda>_. blankTab), next_tab = 0,
      arr_heap = (\<lambda>_. []), next_arr = 0,
      tabs = 0, activeTabId = None, tabCounter = 0,
      showTabs = True,
      onLoadStart = False, onLoadEnd = False, onError = False,
      onTitleChange = False, onNavigate = False,
      el_content = True,
      el_url_input = Some [],
      el_placeholder = Some DisplayInitial,
      el_tabs_container = Some [],
      el_status_dot = Some [js ''wm-status-dot''],
      el_status_text = Some (js ''Ready''),
      webviews = [],
      callback_log = []\<rparr>"

definition defaultOptions :: options where
  "defaultOptions =
     \<lparr>opt_showTabs = True, opt_onLoadStart = False, opt_onLoadEnd = False,
      opt_onError = False, opt_onTitleChange = False, opt_onNavigate = False\<rparr>"

definition newShell :: state where
  "newShell = construct defaultOptions mountedDocument"

definition shellA :: state where
  "shellA = run [NewTab (js ''https://a.com'')] newShell"

definition shellABC :: state where
  "shellABC = run [NewTab (js ''https://a.com''), NewTab (js ''https://b.org''), NewTab []] newShell"

definition exampleCalls :: "call list" where
  "exampleCalls =
     [NewTab (js ''https://a.com''), NewTab [], CloseTab 1, CloseTab 9, NewTab (js ''https://c.net'')]"

text \<open>\<open>2^53 + 1\<close> calls of \<open>newTab\<close>.\<close>

definition tooManyTabs :: "call list" where
  "tooManyTabs = replicate 9007199254740993 (NewTab [])"

definition exampleFailure :: "int \<Rightarrow> load_error" where
  "exampleFailure code = \<lparr>errorCode = code, errorDescription = js ''ERR_NAME_NOT_RESOLVED''\<rparr>"

definition exampleMain :: main_state where
  "exampleMain =
     \<lparr>details_objs = (\<lambda>_. \<lparr>responseHeaders = None\<rparr>)(0 := \<lparr>responseHeaders = Some 0\<rparr>),
      header_objs = (\<lambda>_. [])(0 :=
        [(js ''Cache-Control'', [js ''no-cache'']),
         (js ''x-frame-options'', [js ''DENY'']),
         (js ''X-Frame-Options'', [js ''SAMEORIGIN'']),
         (js ''content-security-policy'', [js ''default-src none'']),
         (js ''Content-Security-Policy'', [js ''frame-ancestors none'']),
         (js ''content-security-policy-report-only'', [js ''default-src self'']),
         (js ''Content-Security-Policy-Report-Only'', [js ''default-src self'']),
         (js ''X-FRAME-OPTIONS'', [js ''DENY''])]),
      next_obj = 1,
      callback_calls = []\<rparr>"

definition exampleDetails :: ref where
  "exampleDetails = 0"

definition noSession :: session where
  "noSession = \<lparr>onHeadersReceived = None\<rparr>"

definition shellTitled :: state where
  "shellTitled = page_title_updated 0 (js ''<b>'') shellA"

section \<open>The invariant of the tab collection\<close>

text \<open>
  The ids of the collection are pairwise distinct and at most the counter, and the tab
  objects of the collection are allocated.
\<close>

definition idsFresh :: "state \<Rightarrow> bool" where
  "idsFresh s \<longleftrightarrow>
     distinct (map tab_id (tabRecords s))
     \<and> (\<forall>r\<in>set (tabsArray s). r < next_tab s \<and> tab_id (tab_heap s r) \<le> tabCounter s)"

section \<open>Properties of the header stripper\<close>

lemma delete_prop_fold_objs:
  "header_objs (foldl (\<lambda>s h. delete_prop r h s) st ks) =
     (header_objs st)(r := filter (\<lambda>p. fst p \<notin> set ks) (header_objs st r))"
proof (induction ks arbitrary: st)
  case Nil
  show ?case by simp
next
  case (Cons k ks)
  have "header_objs (foldl (\<lambda>s h. delete_prop r h s) (delete_prop r k st) ks) =
      (header_objs (delete_prop r k st))
        (r := filter (\<lambda>p. fst p \<notin> set ks) (header_objs (delete_prop r k st) r))"
    by (rule Cons.IH)
  also have "\<dots> = (header_objs st)(r := filter (\<lambda>p. fst p \<notin> set (k # ks)) (header_objs st r))"
    by (simp add: delete_prop_def)
  finally show ?case by simp
qed

lemma delete_prop_fold_other:
  "next_obj (foldl (\<lambda>s h. delete_prop r h s) st ks) = next_obj st"
  "callback_calls (foldl (\<lambda>s h. delete_prop r h s) st ks) = callback_calls st"
  "details_objs (foldl (\<lambda>s h. delete_prop r h s) st ks) = details_objs st"
  by (induction ks arbitrary: st) (simp_all add: delete_prop_def)

lemma listener_objs:
  "header_objs (headersReceived_listener d st) =
     (header_objs st)(next_obj st :=
        filter (\<lambda>p. fst p \<notin> set headersToRemove) (source_headers d st))"
  by (simp add: headersReceived_listener_def spread_headers_def Let_def
      delete_prop_fold_objs source_headers_def)

lemma listener_details: "details_objs (headersReceived_listener d st) = details_objs st"
  by (simp add: headersReceived_listener_def spread_headers_def Let_def delete_prop_fold_other)

lemma listener_calls:
  "callback_calls (headersReceived_listener d st) = callback_calls st @ [Callback (next_obj st)]"
  by (simp add: headersReceived_listener_def spread_headers_def Let_def delete_prop_fold_other)

lemma headersToRemove_set:
  "set headersToRemove =
     {js ''x-frame-options'', js ''X-Frame-Options'',
      js ''content-security-policy'', js ''Content-Security-Policy'',
      js ''content-security-policy-report-only'', js ''Content-Security-Policy-Report-Only''}"
  by (simp add: headersToRemove_def)

text \<open>
  C1. For every intercepted response, the listener installed by \<open>setupMain\<close> calls the
  continuation exactly once, with a header object that holds the entries of the incoming
  headers, in their order and with their values, except those whose name is exactly one
  of the six listed names.
\<close>

theorem setupMain_strips_six_headers:
  "\<exists>h. callback_calls (intercept (setupMain ses) d st) = callback_calls st @ [Callback h]
     \<and> header_objs (intercept (setupMain ses) d st) h =
         filter (\<lambda>(name, val). name \<notin>
             {js ''x-frame-options'', js ''X-Frame-Options'',
              js ''content-security-policy'', js ''Content-Security-Policy'',
              js ''content-security-policy-report-only'',
              js ''Content-Security-Policy-Report-Only''})
           (source_headers d st)"
proof -
  have run: "intercept (setupMain ses) d st = headersReceived_listener d st"
    by (simp add: intercept_def setupMain_def)
  have eq: "(\<lambda>p. fst p \<notin> S) = (\<lambda>(name, val). name \<notin> S)" for S :: "jsstring set"
    by auto
  have "header_objs (headersReceived_listener d st) (next_obj st) =
      filter (\<lambda>p. fst p \<notin> set headersToRemove) (source_headers d st)"
    by (simp add: listener_objs)
  then have "header_objs (headersReceived_listener d st) (next_obj st) =
      filter (\<lambda>(name, val). name \<notin> set headersToRemove) (source_headers d st)"
    by (simp only: eq)
  then show ?thesis
    unfolding run headersToRemove_set using listener_calls by blast
qed

theorem setupMain_strips_six_headers_witness:
  "\<exists>h. callback_calls (intercept (setupMain noSession) exampleDetails exampleMain) = [Callback h]
     \<and> header_objs (intercept (setupMain noSession) exampleDetails exampleMain) h =
          [(js ''Cache-Control'', [js ''no-cache'']), (js ''X-FRAME-OPTIONS'', [js ''DENY''])]"
  using setupMain_strips_six_headers [of noSession exampleDetails exampleMain]
  by (simp add: source_headers_def exampleDetails_def exampleMain_def js_def)

text \<open>
  C10. The listener writes only to the fresh copy: the \<^verbatim>\<open>details\<close> objects and every header
  object that was already in the store, the incoming \<^verbatim>\<open>details.responseHeaders\<close> among
  them, hold the same entries afterwards, and the object handed to the continuation is a
  different one.
\<close>

theorem listener_keeps_details:
  assumes "responseHeaders (details_objs st d) = Some r" and "r < next_obj st"
  shows "details_objs (intercept (setupMain ses) d st) = details_objs st
     \<and> header_objs (intercept (setupMain ses) d st) r = header_objs st r
     \<and> (\<forall>r' < next_obj st. header_objs (intercept (setupMain ses) d st) r' = header_objs st r')
     \<and> (\<exists>h. last (callback_calls (intercept (setupMain ses) d st)) = Callback h \<and> h \<noteq> r)"
  using assms unfolding intercept_def setupMain_def
  by (simp add: listener_calls listener_objs listener_details)

theorem listener_keeps_details_witness:
  "responseHeaders (details_objs exampleMain exampleDetails) = Some 0 \<and> 0 < next_obj exampleMain
   \<and> details_objs (intercept (setupMain noSession) exampleDetails exampleMain) =
       details_objs exampleMain
   \<and> header_objs (intercept (setupMain noSession) exampleDetails exampleMain) 0 =
       header_objs exampleMain 0
   \<and> length (header_objs exampleMain 0) = 8
   \<and> (\<exists>h. last (callback_calls (intercept (setupMain noSession) exampleDetails exampleMain)) =
          Callback h \<and> h \<noteq> 0)"
proof -
  have h: "responseHeaders (details_objs exampleMain exampleDetails) = Some 0"
    "0 < next_obj exampleMain"
    by (simp_all add: exampleDetails_def exampleMain_def)
  from listener_keeps_details [OF h, of noSession] h show ?thesis
    by (simp add: exampleMain_def)
qed

section \<open>Properties of the counter\<close>

lemma ulp_small: "n < 9007199254740992 \<Longrightarrow> ulp n = 1"
  by (subst ulp.simps) simp

lemma roundNat_small: "n < 9007199254740992 \<Longrightarrow> roundNat n = n"
  by (simp add: roundNat_def ulp_small)

lemma ulp_next: "ulp 9007199254740992 = 2" "ulp 9007199254740993 = 2"
  by (subst ulp.simps, simp add: ulp_small)+

lemma roundNat_limit:
  "roundNat 9007199254740992 = 9007199254740992"
  "roundNat 9007199254740993 = 9007199254740992"
  by (simp_all add: roundNat_def ulp_next)

text \<open>The increment is exact up to the value \<open>2^53\<close> and has no effect there.\<close>

lemma increment_exact:
  assumes "0 \<le> c" and "c < 9007199254740992"
  shows "increment c = c + 1"
proof (cases "c + 1 = 9007199254740992")
  case True
  then show ?thesis by (simp add: increment_def toDouble_def roundNat_limit)
next
  case False
  with assms have "nat (c + 1) < 9007199254740992" by simp
  with assms show ?thesis by (simp add: increment_def toDouble_def roundNat_small)
qed

lemma increment_stuck: "increment 9007199254740992 = 9007199254740992"
  by (simp add: increment_def toDouble_def roundNat_limit)

lemma increment_bounded:
  assumes "0 \<le> c" and "c \<le> 9007199254740992"
  shows "0 \<le> increment c \<and> increment c \<le> 9007199254740992"
proof (cases "c = 9007199254740992")
  case True
  then show ?thesis by (simp add: increment_stuck)
next
  case False
  with assms have "c < 9007199254740992" by simp
  with assms(1) show ?thesis by (simp add: increment_exact)
qed

section \<open>Properties of the browser shell\<close>

subsection \<open>What the methods leave unchanged\<close>

lemma renderTabs_frame [simp]:
  "tab_heap (renderTabs s) = tab_heap s"
  "next_tab (renderTabs s) = next_tab s"
  "arr_heap (renderTabs s) = arr_heap s"
  "next_arr (renderTabs s) = next_arr s"
  "tabs (renderTabs s) = tabs s"
  "activeTabId (renderTabs s) = activeTabId s"
  "tabCounter (renderTabs s) = tabCounter s"
  "el_url_input (renderTabs s) = el_url_input s"
  "el_placeholder (renderTabs s) = el_placeholder s"
  "el_content (renderTabs s) = el_content s"
  "webviews (renderTabs s) = webviews s"
  by (simp_all add: renderTabs_def)

lemma tabsArray_renderTabs [simp]: "tabsArray (renderTabs s) = tabsArray s"
  by (simp add: tabsArray_def)

lemma switchTab_frame [simp]:
  "tab_heap (switchTab i s) = tab_heap s"
  "next_tab (switchTab i s) = next_tab s"
  "arr_heap (switchTab i s) = arr_heap s"
  "next_arr (switchTab i s) = next_arr s"
  "tabs (switchTab i s) = tabs s"
  "tabCounter (switchTab i s) = tabCounter s"
  "el_content (switchTab i s) = el_content s"
  "activeTabId (switchTab i s) = Some i"
  by (simp_all add: switchTab_def Let_def)

lemma tabsArray_switchTab [simp]: "tabsArray (switchTab i s) = tabsArray s"
  by (simp add: tabsArray_def)

lemma tabRecords_switchTab [simp]: "tabRecords (switchTab i s) = tabRecords s"
  by (simp add: tabRecords_def)

lemma switchTab_url_input:
  "el_url_input (switchTab i s) = map_option (\<lambda>_. urlOrEmpty (findTab (Some i) s) s) (el_url_input s)"
  by (simp add: switchTab_def Let_def findTab_def tabsArray_def urlOrEmpty_def cong: option.case_cong)

lemma switchTab_placeholder:
  "el_placeholder (switchTab i s) =
     map_option (\<lambda>_. if urlOrEmpty (findTab (Some i) s) s \<noteq> [] then DisplayNone else DisplayFlex)
       (el_placeholder s)"
  by (simp add: switchTab_def Let_def findTab_def tabsArray_def urlOrEmpty_def cong: option.case_cong)

lemma findIndex_Some:
  "findIndex P xs = Some k \<Longrightarrow> k < length xs \<and> P (xs ! k)"
proof (induction xs arbitrary: k)
  case Nil
  then show ?case by simp
next
  case (Cons x xs)
  then show ?case by (cases "P x") auto
qed

lemma findIndex_None: "findIndex P xs = None \<longleftrightarrow> (\<forall>x\<in>set xs. \<not> P x)"
  by (induction xs) auto

lemma closeTab_heap [simp]:
  "tab_heap (closeTab i s) = tab_heap s"
  "next_tab (closeTab i s) = next_tab s"
  "tabs (closeTab i s) = tabs s"
  "tabCounter (closeTab i s) = tabCounter s"
  by (simp_all add: closeTab_def Let_def split: option.split)

lemma closeTab_tabsArray:
  "tabsArray (closeTab i s) =
     (case findIndex (\<lambda>r. tab_id (tab_heap s r) = i) (tabsArray s) of
        None \<Rightarrow> tabsArray s
      | Some k \<Rightarrow> take k (tabsArray s) @ drop (Suc k) (tabsArray s))"
  by (simp add: closeTab_def Let_def tabsArray_def split: option.split)

lemma newTab_heap:
  "tab_heap (snd (newTab url s)) =
     (tab_heap s)(next_tab s := \<lparr>tab_id = increment (tabCounter s), tab_url = url, tab_title = js ''New Tab''\<rparr>)"
  "next_tab (snd (newTab url s)) = Suc (next_tab s)"
  "tabs (snd (newTab url s)) = tabs s"
  "tabCounter (snd (newTab url s)) = increment (tabCounter s)"
  "el_content (snd (newTab url s)) = el_content s"
  by (simp_all add: newTab_def Let_def)

lemma newTab_tabsArray: "tabsArray (snd (newTab url s)) = tabsArray s @ [next_tab s]"
  by (simp add: newTab_def Let_def tabsArray_def)

lemma newTab_result:
  "fst (newTab url s) = (if el_content s then Inr (increment (tabCounter s)) else Inl TypeError)"
  by (simp add: newTab_def Let_def)

lemma one_match:
  "distinct (map f xs) \<Longrightarrow> x \<in> set xs \<Longrightarrow> length (filter (\<lambda>t. f t = f x) xs) = 1"
proof (induction xs)
  case Nil
  then show ?case by simp
next
  case (Cons a xs)
  show ?case
  proof (cases "f a = f x")
    case True
    with Cons.prems have "\<forall>t\<in>set xs. f t \<noteq> f x" by (auto simp: image_iff)
    then have "filter (\<lambda>t. f t = f x) xs = []" by (simp add: filter_empty_conv)
    with True show ?thesis by simp
  next
    case False
    with Cons show ?thesis by auto
  qed
qed

lemma distinct_remove_nth:
  "distinct (map f xs) \<Longrightarrow> distinct (map f (take k xs @ drop (Suc k) xs))"
proof -
  assume d: "distinct (map f xs)"
  have "map f (take k xs @ drop (Suc k) xs) = take k (map f xs) @ drop (Suc k) (map f xs)"
    by (simp add: take_map drop_map)
  moreover have "distinct (take k (map f xs) @ drop (Suc k) (map f xs))"
    using d set_take_disj_set_drop_if_distinct [of "map f xs" k "Suc k"] by simp
  ultimately show ?thesis by simp
qed

lemma findIndex_map: "findIndex P (map f xs) = findIndex (\<lambda>x. P (f x)) xs"
  by (induction xs) simp_all

lemma findIndex_tabs:
  "findIndex (\<lambda>r. tab_id (tab_heap s r) = i) (tabsArray s) =
     findIndex (\<lambda>t. tab_id t = i) (tabRecords s)"
  by (simp add: tabRecords_def findIndex_map)

lemma newTab_active:
  "activeTabId (snd (newTab url s)) = (if el_content s then Some (increment (tabCounter s)) else activeTabId s)"
  by (simp add: newTab_def Let_def)

lemma newTab_next_arr [simp]: "next_arr (snd (newTab url s)) = next_arr s"
  by (simp add: newTab_def Let_def)

lemma closeTab_content [simp]: "el_content (closeTab i s) = el_content s"
  by (simp add: closeTab_def Let_def split: option.split)

lemma findTab_cong_state:
  "tab_heap s' = tab_heap s \<Longrightarrow> tabsArray s' = tabsArray s \<Longrightarrow> findTab i s' = findTab i s"
  by (simp add: findTab_def)

lemma urlOrEmpty_cong_state:
  "tab_heap s' = tab_heap s \<Longrightarrow> urlOrEmpty t s' = urlOrEmpty t s"
  by (simp add: urlOrEmpty_def split: option.split)

lemma newTab_url_input:
  assumes "el_content s"
  shows "el_url_input (snd (newTab url s)) =
     map_option (\<lambda>_. urlOrEmpty (findTab (Some (increment (tabCounter s))) (snd (newTab url s)))
                       (snd (newTab url s))) (el_url_input s)"
    and "el_placeholder (snd (newTab url s)) =
     map_option (\<lambda>_. if urlOrEmpty (findTab (Some (increment (tabCounter s))) (snd (newTab url s)))
                          (snd (newTab url s)) \<noteq> [] then DisplayNone else DisplayFlex)
       (el_placeholder s)"
proof -
  define s3 where "s3 = (s\<lparr>tabCounter := increment (tabCounter s),
      tab_heap := (tab_heap s)(next_tab s :=
         \<lparr>tab_id = increment (tabCounter s), tab_url = url, tab_title = js ''New Tab''\<rparr>),
      next_tab := Suc (next_tab s),
      arr_heap := (arr_heap s)(tabs s := tabsArray s @ [next_tab s]),
      webviews := webviews s @ [\<lparr>wv_id = webviewId (increment (tabCounter s)),
         wv_src = (if url \<noteq> [] then Some url else None), wv_active = False\<rparr>]\<rparr>)"
  have new: "snd (newTab url s) = renderTabs (switchTab (increment (tabCounter s)) s3)"
    using assms by (simp add: newTab_def Let_def s3_def tabsArray_def)
  have same: "tab_heap (snd (newTab url s)) = tab_heap s3" "tabsArray (snd (newTab url s)) = tabsArray s3"
    by (simp_all add: new)
  have f: "findTab i (snd (newTab url s)) = findTab i s3" for i
    using same by (rule findTab_cong_state)
  have u: "urlOrEmpty t (snd (newTab url s)) = urlOrEmpty t s3" for t
    using same(1) by (rule urlOrEmpty_cong_state)
  have inp: "el_url_input s3 = el_url_input s" "el_placeholder s3 = el_placeholder s"
    by (simp_all add: s3_def)
  show "el_url_input (snd (newTab url s)) =
     map_option (\<lambda>_. urlOrEmpty (findTab (Some (increment (tabCounter s))) (snd (newTab url s)))
                       (snd (newTab url s))) (el_url_input s)"
    unfolding f u by (simp add: new switchTab_url_input inp)
  show "el_placeholder (snd (newTab url s)) =
     map_option (\<lambda>_. if urlOrEmpty (findTab (Some (increment (tabCounter s))) (snd (newTab url s)))
                          (snd (newTab url s)) \<noteq> [] then DisplayNone else DisplayFlex)
       (el_placeholder s)"
    unfolding f u by (simp add: new switchTab_placeholder inp)
qed

lemma renderTabs_container:
  "el_tabs_container (renderTabs s) =
     (if el_tabs_container s = None \<or> \<not> showTabs s then el_tabs_container s
      else Some (stripMarkup s))"
  by (simp add: renderTabs_def)

lemma renderTabs_showTabs [simp]: "showTabs (renderTabs s) = showTabs s"
  by (simp add: renderTabs_def)

lemma switchTab_showTabs [simp]: "showTabs (switchTab i s) = showTabs s"
  by (simp add: switchTab_def Let_def)

lemma newTab_showTabs [simp]: "showTabs (snd (newTab url s)) = showTabs s"
  by (simp add: newTab_def Let_def)

lemma switchTab_container_present:
  "el_tabs_container (switchTab i s) = None \<longleftrightarrow> el_tabs_container s = None"
  by (simp add: switchTab_def Let_def renderTabs_container)

lemma newTab_container_present:
  "el_tabs_container (snd (newTab url s)) = None \<longleftrightarrow> el_tabs_container s = None"
  by (simp add: newTab_def Let_def renderTabs_container switchTab_container_present)

lemma find_never: "List.find (\<lambda>r. False) xs = None"
  by (induction xs) simp_all

subsection \<open>The invariant is kept\<close>

lemma tabRecords_newTab:
  assumes "\<forall>r\<in>set (tabsArray s). r < next_tab s"
  shows "tabRecords (snd (newTab url s)) =
     tabRecords s @ [\<lparr>tab_id = increment (tabCounter s), tab_url = url, tab_title = js ''New Tab''\<rparr>]"
  using assms by (auto simp add: tabRecords_def newTab_heap newTab_tabsArray)

lemma idsFresh_newTab:
  assumes "idsFresh s" and "tabCounter s < increment (tabCounter s)"
  shows "idsFresh (snd (newTab url s))"
proof -
  from assms(1) have old:
    "\<forall>r\<in>set (tabsArray s). r < next_tab s \<and> tab_id (tab_heap s r) \<le> tabCounter s"
    and d: "distinct (map tab_id (tabRecords s))"
    by (simp_all add: idsFresh_def)
  from old have recs: "tabRecords (snd (newTab url s)) =
     tabRecords s @ [\<lparr>tab_id = increment (tabCounter s), tab_url = url, tab_title = js ''New Tab''\<rparr>]"
    by (simp add: tabRecords_newTab)
  from old assms(2) have "increment (tabCounter s) \<notin> tab_id ` set (tabRecords s)"
    by (auto simp add: tabRecords_def)
  with d have "distinct (map tab_id (tabRecords (snd (newTab url s))))"
    by (simp add: recs)
  moreover from old assms(2) have "\<forall>r\<in>set (tabsArray (snd (newTab url s))).
      r < next_tab (snd (newTab url s))
      \<and> tab_id (tab_heap (snd (newTab url s)) r) \<le> tabCounter (snd (newTab url s))"
    by (auto simp add: newTab_heap newTab_tabsArray)
  ultimately show ?thesis by (simp add: idsFresh_def)
qed

lemma tabRecords_closeTab:
  "tabRecords (closeTab i s) =
     (case findIndex (\<lambda>r. tab_id (tab_heap s r) = i) (tabsArray s) of
        None \<Rightarrow> tabRecords s
      | Some k \<Rightarrow> take k (tabRecords s) @ drop (Suc k) (tabRecords s))"
  by (simp add: tabRecords_def closeTab_tabsArray take_map drop_map split: option.split)

lemma idsFresh_closeTab:
  assumes "idsFresh s"
  shows "idsFresh (closeTab i s)"
proof (cases "findIndex (\<lambda>r. tab_id (tab_heap s r) = i) (tabsArray s)")
  case None
  then have "tabsArray (closeTab i s) = tabsArray s" "tabRecords (closeTab i s) = tabRecords s"
    by (simp_all add: closeTab_tabsArray tabRecords_closeTab)
  with assms show ?thesis by (simp add: idsFresh_def)
next
  case (Some k)
  then have arr: "tabsArray (closeTab i s) = take k (tabsArray s) @ drop (Suc k) (tabsArray s)"
    and recs: "tabRecords (closeTab i s) = take k (tabRecords s) @ drop (Suc k) (tabRecords s)"
    by (simp_all add: closeTab_tabsArray tabRecords_closeTab)
  have sub: "set (tabsArray (closeTab i s)) \<subseteq> set (tabsArray s)"
    unfolding arr using set_take_subset [of k "tabsArray s"] set_drop_subset [of "Suc k" "tabsArray s"]
    by auto
  from assms have "distinct (map tab_id (tabRecords s))"
    by (simp add: idsFresh_def)
  then have "distinct (map tab_id (tabRecords (closeTab i s)))"
    unfolding recs by (rule distinct_remove_nth)
  moreover from assms sub have "\<forall>r\<in>set (tabsArray (closeTab i s)).
      r < next_tab (closeTab i s) \<and> tab_id (tab_heap (closeTab i s) r) \<le> tabCounter (closeTab i s)"
    by (auto simp add: idsFresh_def)
  ultimately show ?thesis by (simp add: idsFresh_def)
qed

lemma length_closeTab:
  "length (tabRecords (closeTab i s)) + 
     (if findIndex (\<lambda>r. tab_id (tab_heap s r) = i) (tabsArray s) \<noteq> None then 1 else 0)
   = length (tabRecords s)"
proof (cases "findIndex (\<lambda>r. tab_id (tab_heap s r) = i) (tabsArray s)")
  case None
  then show ?thesis by (simp add: tabRecords_closeTab)
next
  case (Some k)
  then have "k < length (tabRecords s)" by (simp add: findIndex_Some tabRecords_def)
  moreover from Some have
    "tabRecords (closeTab i s) = take k (tabRecords s) @ drop (Suc k) (tabRecords s)"
    by (simp add: tabRecords_closeTab)
  ultimately show ?thesis using Some by simp
qed

lemma idsFresh_construct: "idsFresh (construct opts w)"
  by (simp add: idsFresh_def construct_def tabRecords_def tabsArray_def)

lemma returnedIds_NewTab:
  "returnedIds (NewTab url # cs) s =
     (if el_content s then [increment (tabCounter s)] else []) @ returnedIds cs (snd (newTab url s))"
  using newTab_result [of url s] by (cases "newTab url s") (auto split: sum.split)

lemma run_from_fresh:
  assumes "idsFresh s" and "0 \<le> tabCounter s"
    and "tabCounter s + int (openedCount cs) \<le> 9007199254740992"
  shows "idsFresh (run cs s)
     \<and> sorted_wrt (<) (returnedIds cs s)
     \<and> (\<forall>i\<in>set (returnedIds cs s). tabCounter s < i)
     \<and> length (tabRecords (run cs s)) + closedCount cs s = length (tabRecords s) + openedCount cs
     \<and> tabCounter (run cs s) = tabCounter s + int (openedCount cs)"
  using assms
proof (induction cs arbitrary: s)
  case Nil
  then show ?case by simp
next
  case (Cons c cs)
  show ?case
  proof (cases c)
    case (NewTab url)
    let ?s = "snd (newTab url s)"
    from Cons.prems(3) have below: "tabCounter s < 9007199254740992"
      by (simp add: NewTab)
    with Cons.prems(2) have inc: "increment (tabCounter s) = tabCounter s + 1"
      by (rule increment_exact)
    have cnt: "tabCounter ?s = tabCounter s + 1" by (simp add: newTab_heap inc)
    have fresh: "idsFresh ?s" using Cons.prems(1) by (rule idsFresh_newTab) (simp add: inc)
    have "0 \<le> tabCounter ?s" "tabCounter ?s + int (openedCount cs) \<le> 9007199254740992"
      using Cons.prems(2,3) by (simp_all add: cnt NewTab)
    note IH = Cons.IH [OF fresh this]
    have len: "length (tabRecords ?s) = Suc (length (tabRecords s))"
      by (simp add: tabRecords_def newTab_tabsArray)
    have ret: "returnedIds (c # cs) s =
        (if el_content s then [tabCounter s + 1] else []) @ returnedIds cs ?s"
      unfolding NewTab returnedIds_NewTab inc ..
    from IH have gt: "\<forall>i\<in>set (returnedIds cs ?s). tabCounter s + 1 < i"
      by (simp add: cnt)
    have "sorted_wrt (<) (returnedIds (c # cs) s)"
      unfolding ret using IH gt by (simp add: sorted_wrt_append)
    moreover have "\<forall>i\<in>set (returnedIds (c # cs) s). tabCounter s < i"
      unfolding ret using gt by auto
    moreover have "idsFresh (run (c # cs) s)" using IH by (simp add: NewTab)
    moreover have "length (tabRecords (run (c # cs) s)) + closedCount (c # cs) s =
        length (tabRecords s) + openedCount (c # cs)"
      using IH len by (simp add: NewTab)
    moreover have "tabCounter (run (c # cs) s) = tabCounter s + int (openedCount (c # cs))"
      using IH by (simp add: NewTab cnt)
    ultimately show ?thesis by blast
  next
    case (CloseTab i)
    let ?s = "closeTab i s"
    have fresh: "idsFresh ?s" using Cons.prems(1) by (rule idsFresh_closeTab)
    have "0 \<le> tabCounter ?s" "tabCounter ?s + int (openedCount cs) \<le> 9007199254740992"
      using Cons.prems(2,3) by (simp_all add: CloseTab)
    note IH = Cons.IH [OF fresh this]
    have "idsFresh (run (c # cs) s)" using IH by (simp add: CloseTab)
    moreover have "sorted_wrt (<) (returnedIds (c # cs) s)" using IH by (simp add: CloseTab)
    moreover have "\<forall>i\<in>set (returnedIds (c # cs) s). tabCounter s < i"
      using IH by (simp add: CloseTab)
    moreover have "length (tabRecords (run (c # cs) s)) + closedCount (c # cs) s =
        length (tabRecords s) + openedCount (c # cs)"
      using IH length_closeTab [of i s] by (simp add: CloseTab)
    moreover have "tabCounter (run (c # cs) s) = tabCounter s + int (openedCount (c # cs))"
      using IH by (simp add: CloseTab)
    ultimately show ?thesis by blast
  qed
qed

lemma tabRecords_newTab_fresh:
  "idsFresh s \<Longrightarrow> tabRecords (snd (newTab url s)) =
     tabRecords s @ [\<lparr>tab_id = increment (tabCounter s), tab_url = url, tab_title = js ''New Tab''\<rparr>]"
  by (simp add: tabRecords_newTab idsFresh_def)

lemma tabRecords_closeTab_ids:
  "tabRecords (closeTab i s) =
     (case findIndex (\<lambda>t. tab_id t = i) (tabRecords s) of
        None \<Rightarrow> tabRecords s
      | Some k \<Rightarrow> take k (tabRecords s) @ drop (Suc k) (tabRecords s))"
  by (simp add: tabRecords_closeTab findIndex_tabs)

lemma closedCount_CloseTab:
  "closedCount (CloseTab i # cs) s =
     (if findIndex (\<lambda>t. tab_id t = i) (tabRecords s) \<noteq> None then 1 else 0)
     + closedCount cs (closeTab i s)"
  by (simp add: findIndex_tabs)

subsection \<open>The example states\<close>

lemma newShell_fields:
  "tabsArray newShell = []" "next_tab newShell = 0" "tabCounter newShell = 0"
  "tab_heap newShell = (\<lambda>_. blankTab)" "activeTabId newShell = None"
  "el_content newShell" "el_url_input newShell = Some []"
  "el_placeholder newShell = Some DisplayInitial" "tabs newShell = 0" "next_arr newShell = 1"
  "onError newShell = False" "el_status_dot newShell = Some [js ''wm-status-dot'']"
  "el_status_text newShell = Some (js ''Ready'')" "callback_log newShell = []"
  "el_tabs_container newShell = Some []" "showTabs newShell"
  by (simp_all add: newShell_def construct_def mountedDocument_def defaultOptions_def tabsArray_def)

lemma newShell_fresh: "idsFresh newShell" "tabRecords newShell = []"
  by (simp_all add: newShell_def idsFresh_construct) (simp add: construct_def tabRecords_def tabsArray_def)

lemmas newTab_simps = newTab_heap newTab_tabsArray newTab_active newTab_url_input newShell_fields
  increment_exact

lemmas run_simps = returnedIds_NewTab closedCount_CloseTab tabRecords_newTab_fresh tabRecords_closeTab_ids
  idsFresh_newTab idsFresh_closeTab newShell_fresh newTab_heap(4,5) newShell_fields
  increment_exact

lemma shellA_fields:
  "tabsArray shellA = [0]"
  "tab_heap shellA 0 = \<lparr>tab_id = 1, tab_url = js ''https://a.com'', tab_title = js ''New Tab''\<rparr>"
  "activeTabId shellA = Some 1"
  "el_url_input shellA = Some (js ''https://a.com'')"
  "el_placeholder shellA = Some DisplayNone"
  by (simp_all add: shellA_def newTab_simps findTab_def urlOrEmpty_def js_def)

lemma shellABC_fields:
  "tabsArray shellABC = [0, 1, 2]"
  "tabRecords shellABC =
      [\<lparr>tab_id = 1, tab_url = js ''https://a.com'', tab_title = js ''New Tab''\<rparr>,
       \<lparr>tab_id = 2, tab_url = js ''https://b.org'', tab_title = js ''New Tab''\<rparr>,
       \<lparr>tab_id = 3, tab_url = [], tab_title = js ''New Tab''\<rparr>]"
  "activeTabId shellABC = Some 3"
  by (simp_all add: shellABC_def tabRecords_def newTab_simps)

subsection \<open>Closing tabs\<close>

text \<open>
  The index at which \<open>closeTab\<close> reads \<^verbatim>\<open>this.tabs[newIndex]\<close> is within the array, and so
  is every index that \<open>findIndex\<close> returns: the reads by index of the model are the
  defined ones.
\<close>

lemma closeTab_newIndex_in_range:
  "length xs \<noteq> 0 \<Longrightarrow> min index (length xs - 1) < length xs"
  by (cases xs) simp_all



text \<open>
  C8. Closing the only tab empties the collection and clears the active id, so that
  \<open>getCurrentUrl\<close> returns the empty string; the address bar, when present, is emptied
  and the placeholder, when present, is displayed again.
\<close>

theorem closeTab_last:
  assumes "tabsArray s = [r]" and "tab_id (tab_heap s r) = i"
  shows "tabsArray (closeTab i s) = []
     \<and> activeTabId (closeTab i s) = None
     \<and> getCurrentUrl (closeTab i s) = []
     \<and> el_url_input (closeTab i s) = map_option (\<lambda>_. []) (el_url_input s)
     \<and> el_placeholder (closeTab i s) = map_option (\<lambda>_. DisplayFlex) (el_placeholder s)"
  using assms
  by (simp add: closeTab_def Let_def tabsArray_def getCurrentUrl_def findTab_def urlOrEmpty_def)

theorem closeTab_last_witness:
  "tabsArray shellA = [0] \<and> tab_id (tab_heap shellA 0) = 1
   \<and> el_url_input shellA = Some (js ''https://a.com'') \<and> el_placeholder shellA = Some DisplayNone
   \<and> tabsArray (closeTab 1 shellA) = [] \<and> activeTabId (closeTab 1 shellA) = None
   \<and> getCurrentUrl (closeTab 1 shellA) = []
   \<and> el_url_input (closeTab 1 shellA) = Some []
   \<and> el_placeholder (closeTab 1 shellA) = Some DisplayFlex"
proof -
  have h: "tabsArray shellA = [0]" "tab_id (tab_heap shellA 0) = 1"
    by (simp_all add: shellA_fields)
  from closeTab_last [OF h] show ?thesis
    by (simp add: shellA_fields)
qed

subsection \<open>Tab ids\<close>

lemma returnedIds_all:
  "el_content s \<Longrightarrow> length (returnedIds cs s) = openedCount cs"
proof (induction cs arbitrary: s)
  case Nil
  show ?case by simp
next
  case (Cons c cs)
  show ?case
  proof (cases c)
    case (NewTab url)
    have "el_content (snd (newTab url s))" using Cons.prems by (simp add: newTab_heap)
    from Cons.IH [OF this] Cons.prems show ?thesis
      unfolding NewTab returnedIds_NewTab by simp
  next
    case (CloseTab i)
    have "el_content (closeTab i s)" using Cons.prems by simp
    from Cons.IH [OF this] show ?thesis by (simp add: CloseTab)
  qed
qed



text \<open>
  Beyond \<open>2^53\<close> calls the counter has stopped, and \<open>newTab\<close> hands out the id \<open>2^53\<close> again.
\<close>

lemma run_append: "run (xs @ ys) s = run ys (run xs s)"
proof (induction xs arbitrary: s)
  case Nil
  show ?case by simp
next
  case (Cons c xs)
  then show ?case by (cases c) simp_all
qed

lemma returnedIds_append:
  "returnedIds (xs @ ys) s = returnedIds xs s @ returnedIds ys (run xs s)"
proof (induction xs arbitrary: s)
  case Nil
  show ?case by simp
next
  case (Cons c xs)
  show ?case
  proof (cases c)
    case (NewTab url)
    have "returnedIds (NewTab url # (xs @ ys)) s =
        returnedIds (NewTab url # xs) s @ returnedIds ys (run (NewTab url # xs) s)"
      unfolding returnedIds_NewTab by (simp add: Cons.IH)
    then show ?thesis by (simp only: NewTab append_Cons)
  next
    case (CloseTab i)
    then show ?thesis by (simp add: Cons.IH)
  qed
qed

lemma run_content: "el_content (run cs s) = el_content s"
proof (induction cs arbitrary: s)
  case Nil
  show ?case by simp
next
  case (Cons c cs)
  then show ?case by (cases c) (simp_all add: newTab_heap)
qed

text \<open>The counter of an instance never passes \<open>2^53\<close>.\<close>

lemma run_counter_bounded:
  assumes "0 \<le> tabCounter s" and "tabCounter s \<le> 9007199254740992"
  shows "0 \<le> tabCounter (run cs s) \<and> tabCounter (run cs s) \<le> 9007199254740992"
  using assms
proof (induction cs arbitrary: s)
  case Nil
  then show ?case by simp
next
  case (Cons c cs)
  show ?case
  proof (cases c)
    case (NewTab url)
    from increment_bounded [OF Cons.prems] Cons.IH [of "snd (newTab url s)"]
    show ?thesis by (simp add: NewTab newTab_heap)
  next
    case (CloseTab i)
    from Cons.prems Cons.IH [of "closeTab i s"] show ?thesis by (simp add: CloseTab)
  qed
qed

lemma openedCount_replicate: "openedCount (replicate n (NewTab url)) = n"
  by (induction n) simp_all

lemma tooManyTabs_split:
  "tooManyTabs = replicate 9007199254740991 (NewTab []) @ [NewTab [], NewTab []]"
proof -
  have "(9007199254740993 :: nat) = 9007199254740991 + Suc (Suc 0)" by simp
  then have "tooManyTabs =
      replicate 9007199254740991 (NewTab []) @ replicate (Suc (Suc 0)) (NewTab [])"
    unfolding tooManyTabs_def by (simp only: replicate_add)
  then show ?thesis by (simp only: replicate.simps)
qed


subsection \<open>Switching tabs\<close>

text \<open>
  C5 (as the code has it). For an id that matches no tab, \<open>switchTab\<close> sets the active id
  to that id, leaves the tab collection as it is, and shows the empty state: the address
  bar is set to the empty string and the placeholder is displayed.
\<close>

theorem switchTab_unknown:
  assumes "findTab (Some i) s = None"
  shows "activeTabId (switchTab i s) = Some i
     \<and> el_url_input (switchTab i s) = map_option (\<lambda>_. []) (el_url_input s)
     \<and> el_placeholder (switchTab i s) = map_option (\<lambda>_. DisplayFlex) (el_placeholder s)
     \<and> tabRecords (switchTab i s) = tabRecords s"
  using assms
  by (simp add: switchTab_url_input switchTab_placeholder urlOrEmpty_def tabRecords_def)

theorem switchTab_unknown_witness:
  "findTab (Some 7) shellA = None
   \<and> activeTabId (switchTab 7 shellA) = Some 7
   \<and> el_url_input (switchTab 7 shellA) = Some []
   \<and> el_placeholder (switchTab 7 shellA) = Some DisplayFlex
   \<and> tabRecords (switchTab 7 shellA) = tabRecords shellA"
proof -
  have h: "findTab (Some 7) shellA = None"
    by (simp add: findTab_def shellA_fields)
  from switchTab_unknown [OF h] show ?thesis
    by (simp add: h shellA_fields)
qed

text \<open>
  C5 as stated fails: switching to an unknown id clears a filled address bar and brings
  the placeholder back.
\<close>

theorem switchTab_unknown_changes_address_bar:
  "findTab (Some 7) shellA = None
   \<and> el_url_input shellA = Some (js ''https://a.com'')
   \<and> el_url_input (switchTab 7 shellA) = Some []
   \<and> el_url_input (switchTab 7 shellA) \<noteq> el_url_input shellA
   \<and> el_placeholder shellA = Some DisplayNone
   \<and> el_placeholder (switchTab 7 shellA) = Some DisplayFlex"
  by (simp add: switchTab_url_input switchTab_placeholder findTab_def urlOrEmpty_def
      shellA_fields) (simp add: js_def)

subsection \<open>\<open>getTabs\<close>\<close>

text \<open>
  C6 (as the code has it). \<open>getTabs\<close> returns a new array that holds the references of
  \<^verbatim>\<open>this.tabs\<close>. Whatever the caller stores in that array, the collection, \<open>getCurrentUrl\<close>
  and the elements of a later \<open>getTabs\<close> stay as they were. The tab objects are shared:
  an assignment to a tab object of the returned array is an assignment to the tab of the
  collection.
\<close>

theorem getTabs_fresh_array:
  assumes "tabs s < next_arr s"
  shows "fst (getTabs s) \<noteq> tabs s
     \<and> arr_heap (snd (getTabs s)) (fst (getTabs s)) = tabsArray s
     \<and> tabRecords (snd (getTabs s)) = tabRecords s
     \<and> tabRecords (writeArray (fst (getTabs s)) xs (snd (getTabs s))) = tabRecords s
     \<and> getCurrentUrl (writeArray (fst (getTabs s)) xs (snd (getTabs s))) = getCurrentUrl s
     \<and> arr_heap (snd (getTabs (writeArray (fst (getTabs s)) xs (snd (getTabs s)))))
          (fst (getTabs (writeArray (fst (getTabs s)) xs (snd (getTabs s))))) = tabsArray s
     \<and> tabRecords (writeTab r t (snd (getTabs s))) =
          map (\<lambda>x. if x = r then t else tab_heap s x) (tabsArray s)"
  using assms
  by (simp add: getTabs_def writeArray_def writeTab_def Let_def tabsArray_def tabRecords_def
      getCurrentUrl_def findTab_def urlOrEmpty_def split: option.split)

theorem getTabs_fresh_array_witness:
  "tabs shellA < next_arr shellA
   \<and> fst (getTabs shellA) \<noteq> tabs shellA
   \<and> arr_heap (snd (getTabs shellA)) (fst (getTabs shellA)) = [0]
   \<and> getCurrentUrl (writeArray (fst (getTabs shellA)) [] (snd (getTabs shellA))) =
       js ''https://a.com''"
proof -
  have h: "tabs shellA < next_arr shellA"
    by (simp add: shellA_def newTab_heap newShell_fields)
  have u: "getCurrentUrl shellA = js ''https://a.com''"
    by (simp add: getCurrentUrl_def findTab_def urlOrEmpty_def shellA_fields)
  from getTabs_fresh_array [OF h, of "[]"] h u show ?thesis
    by (simp add: shellA_fields)
qed

text \<open>
  C6 as stated fails: a write to a tab object read from the returned array changes what
  \<open>getCurrentUrl\<close> returns.
\<close>

theorem getTabs_shares_tab_records:
  "getCurrentUrl shellA = js ''https://a.com''
   \<and> arr_heap (snd (getTabs shellA)) (fst (getTabs shellA)) = [0]
   \<and> getCurrentUrl
        (writeTab (arr_heap (snd (getTabs shellA)) (fst (getTabs shellA)) ! 0)
           \<lparr>tab_id = 1, tab_url = js ''x'', tab_title = js ''New Tab''\<rparr>
           (snd (getTabs shellA))) = js ''x''
   \<and> js ''x'' \<noteq> js ''https://a.com''"
  by (simp add: getTabs_def writeTab_def Let_def getCurrentUrl_def findTab_def urlOrEmpty_def
      tabsArray_def shellA_fields [unfolded tabsArray_def]) (simp add: js_def)

subsection \<open>Load failures\<close>

text \<open>
  C7. A \<^verbatim>\<open>did-fail-load\<close> event with error code \<open>-3\<close> changes nothing: no call of
  \<open>onError\<close>, no status update. With any other code the status dot gets the class
  \<^verbatim>\<open>error\<close>, the status text becomes \<^verbatim>\<open>Error: \<close> followed by the description, and
  \<open>onError\<close> is called with the tab and the event when the option holds a callback.
\<close>

theorem did_fail_load_superseded:
  "(errorCode e = - 3 \<longrightarrow> did_fail_load t e s = s) \<and>
   (errorCode e \<noteq> - 3 \<longrightarrow>
      el_status_dot (did_fail_load t e s) =
        map_option (\<lambda>_. [js ''wm-status-dot'', js ''error'']) (el_status_dot s) \<and>
      el_status_text (did_fail_load t e s) =
        map_option (\<lambda>_. js ''Error: '' @ errorDescription e) (el_status_text s) \<and>
      callback_log (did_fail_load t e s) =
        callback_log s @ (if onError s then [OnError t e] else []))"
proof (cases "errorCode e = - 3")
  case True
  then show ?thesis by (simp add: did_fail_load_def)
next
  case False
  let ?s1 = "setStatus Error (js ''Error: '' @ errorDescription e) s"
  have status: "el_status_dot ?s1 = map_option (\<lambda>_. [js ''wm-status-dot'', js ''error'']) (el_status_dot s)"
    "el_status_text ?s1 = map_option (\<lambda>_. js ''Error: '' @ errorDescription e) (el_status_text s)"
    "callback_log ?s1 = callback_log s" "onError ?s1 = onError s"
    by (simp_all add: setStatus_def Let_def)
  have "did_fail_load t e s =
      (if onError s then ?s1\<lparr>callback_log := callback_log s @ [OnError t e]\<rparr> else ?s1)"
    using False by (simp add: did_fail_load_def Let_def status)
  with False status show ?thesis by simp
qed

theorem did_fail_load_superseded_witness:
  "did_fail_load 0 (exampleFailure (- 3)) (newShell\<lparr>onError := True\<rparr>) = newShell\<lparr>onError := True\<rparr>
   \<and> el_status_dot (did_fail_load 0 (exampleFailure (- 105)) (newShell\<lparr>onError := True\<rparr>)) =
        Some [js ''wm-status-dot'', js ''error'']
   \<and> el_status_text (did_fail_load 0 (exampleFailure (- 105)) (newShell\<lparr>onError := True\<rparr>)) =
        Some (js ''Error: ERR_NAME_NOT_RESOLVED'')
   \<and> callback_log (did_fail_load 0 (exampleFailure (- 105)) (newShell\<lparr>onError := True\<rparr>)) =
        [OnError 0 (exampleFailure (- 105))]"
  using did_fail_load_superseded [of "exampleFailure (- 3)" 0 "newShell\<lparr>onError := True\<rparr>"]
    did_fail_load_superseded [of "exampleFailure (- 105)" 0 "newShell\<lparr>onError := True\<rparr>"]
  by (simp add: exampleFailure_def newShell_fields js_def)

section \<open>Properties of the string handling\<close>

subsection \<open>Escaping of tab titles\<close>

lemma escapeUnit_no_angle: "0x3C \<notin> set (escapeUnit c) \<and> 0x3E \<notin> set (escapeUnit c)"
  by (simp add: escapeUnit_def js_def)

lemma escapeHtml_no_angle: "0x3C \<notin> set (escapeHtml text) \<and> 0x3E \<notin> set (escapeHtml text)"
  by (simp add: escapeHtml_def escapeUnit_no_angle)

lemma digit_unit: "k < 10 \<Longrightarrow> (of_nat (48 + k) :: 16 word) \<noteq> 0x3C \<and> (of_nat (48 + k) :: 16 word) \<noteq> 0x3E"
proof -
  assume "k < 10"
  then have "k \<in> {0, 1, 2, 3, 4, 5, 6, 7, 8, 9}" by auto
  then show ?thesis by auto
qed

lemma digits_no_angle: "0x3C \<notin> set (digits n) \<and> 0x3E \<notin> set (digits n)"
proof (induction n rule: digits.induct)
  case (1 n)
  show ?case
  proof (cases "n < 10")
    case True
    then show ?thesis using digit_unit [of n] by (subst digits.simps, subst digits.simps) auto
  next
    case False
    have "n mod 10 < 10" by simp
    from digit_unit [OF this] 1 [OF False] False show ?thesis
      by (subst digits.simps, subst digits.simps) auto
  qed
qed

lemma numToString_no_angle: "0x3C \<notin> set (numToString i) \<and> 0x3E \<notin> set (numToString i)"
  by (simp add: numToString_def digits_no_angle js_def)

lemma tabMarkup_angles:
  "count_list (tabMarkup a t) 0x3C = 6 \<and> count_list (tabMarkup a t) 0x3E = 6"
  by (simp add: tabMarkup_def escapeHtml_no_angle numToString_no_angle)
     (simp add: js_def)

lemma count_list_concat: "count_list (concat xss) x = sum_list (map (\<lambda>xs. count_list xs x) xss)"
  by (induction xss) simp_all

lemma stripMarkup_angles:
  "count_list (stripMarkup s) 0x3C = 6 * length (tabRecords s)"
  "count_list (stripMarkup s) 0x3E = 6 * length (tabRecords s)"
  by (simp_all add: stripMarkup_def count_list_concat comp_def tabMarkup_angles sum_list_triv)

lemma digits_small: "n < 10 \<Longrightarrow> digits n = [of_nat (48 + n)]"
  by (subst digits.simps) simp

text \<open>
  C9. When the strip is rendered, its markup is the concatenation of one fragment per tab.
  In the fragment the title occurs once, escaped by \<open>_escapeHtml\<close>, between text that
  does not depend on the title. An escaped title contains neither \<^verbatim>\<open><\<close> nor \<^verbatim>\<open>>\<close>, so
  the strip holds exactly the six tag openings and closings of the template per tab,
  whatever the titles are.
\<close>

theorem strip_title_escaped:
  "(el_tabs_container s \<noteq> None \<and> showTabs s \<longrightarrow>
      el_tabs_container (renderTabs s) =
        Some (concat (map (tabMarkup (activeTabId s)) (tabRecords s))))
   \<and> (\<exists>before after. \<forall>title.
         tabMarkup a (t\<lparr>tab_title := title\<rparr>) = before @ escapeHtml title @ after)
   \<and> 0x3C \<notin> set (escapeHtml title) \<and> 0x3E \<notin> set (escapeHtml title)
   \<and> count_list (stripMarkup s) 0x3C = 6 * length (tabRecords s)
   \<and> count_list (stripMarkup s) 0x3E = 6 * length (tabRecords s)"
proof -
  have "\<forall>title. tabMarkup a (t\<lparr>tab_title := title\<rparr>) =
      (js ''\<newline>      <div class=\"wm-tab '' @ (if Some (tab_id t) = a then js ''active'' else [])
        @ js ''\" data-tab-id=\"'' @ numToString (tab_id t)
        @ js ''\">\<newline>        <span class=\"wm-tab-title\">'')
      @ escapeHtml title
      @ (js ''</span>\<newline>        <button class=\"wm-tab-close\" data-close-id=\"''
        @ numToString (tab_id t) @ js ''\">&times;</button>\<newline>      </div>\<newline>    '')"
    by (simp add: tabMarkup_def)
  then have "\<exists>before after. \<forall>title.
      tabMarkup a (t\<lparr>tab_title := title\<rparr>) = before @ escapeHtml title @ after"
    by blast
  then show ?thesis
    by (simp add: renderTabs_container stripMarkup_def [symmetric] escapeHtml_no_angle
        stripMarkup_angles)
qed

theorem strip_title_escaped_witness:
  \<open>el_tabs_container shellTitled \<noteq> None \<and> showTabs shellTitled
   \<and> map tab_title (tabRecords shellTitled) = [js ''<b>'']
   \<and> escapeHtml (js ''<b>'') = js ''&lt;b&gt;''
   \<and> el_tabs_container (renderTabs shellTitled) =
       Some (js ''\<newline>      <div class="wm-tab active" data-tab-id="1">\<newline>        <span class="wm-tab-title">&lt;b&gt;</span>\<newline>        <button class="wm-tab-close" data-close-id="1">&times;</button>\<newline>      </div>\<newline>    '')
   \<and> count_list (stripMarkup shellTitled) 0x3C = 6\<close>
proof -
  have st: "el_tabs_container shellA \<noteq> None" "showTabs shellA"
    by (simp_all add: shellA_def newTab_container_present newShell_fields)
  have h: "el_tabs_container shellTitled \<noteq> None" "showTabs shellTitled"
    using st by (simp_all add: shellTitled_def page_title_updated_def Let_def renderTabs_container)
  have recs: "tabRecords shellTitled =
      [\<lparr>tab_id = 1, tab_url = js ''https://a.com'', tab_title = js ''<b>''\<rparr>]"
    by (simp add: shellTitled_def page_title_updated_def Let_def tabRecords_def tabsArray_def
        shellA_fields [unfolded tabsArray_def]) (simp add: js_def)
  have act: "activeTabId shellTitled = Some 1"
    by (simp add: shellTitled_def page_title_updated_def Let_def shellA_fields)
  have esc: "escapeHtml (js ''<b>'') = js ''&lt;b&gt;''"
    by (simp add: escapeHtml_def escapeUnit_def js_def)
  have num: "numToString 1 = js ''1''"
    by (simp add: numToString_def digits_small js_def)
  from strip_title_escaped [of shellTitled "Some 1" "tab_heap shellTitled 0" "js ''<b>''"] h
  show ?thesis
    by (simp add: recs act tabMarkup_def esc num) (simp add: js_def)
qed

subsection \<open>The matcher decides the language of the expression\<close>

lemma nullable_lang: "nullable r \<longleftrightarrow> [] \<in> lang r"
  by (induction r) (auto intro: iter_empty)

lemma iter_step:
  "c # w \<in> iter A \<longleftrightarrow> (\<exists>u v. w = u @ v \<and> c # u \<in> A \<and> v \<in> iter A)"
proof
  assume "c # w \<in> iter A"
  then show "\<exists>u v. w = u @ v \<and> c # u \<in> A \<and> v \<in> iter A"
  proof (induction "c # w" arbitrary: w rule: iter.induct)
    case (iter_more u v)
    show ?case
    proof (cases u)
      case Nil
      with iter_more show ?thesis by simp
    next
      case (Cons d u')
      with iter_more.hyps(1,2,4) show ?thesis by auto
    qed
  qed
next
  assume "\<exists>u v. w = u @ v \<and> c # u \<in> A \<and> v \<in> iter A"
  then obtain u v where "w = u @ v" "c # u \<in> A" "v \<in> iter A" by blast
  then show "c # w \<in> iter A" using iter_more [of "c # u" A v] by simp
qed

lemma deriv_lang: "w \<in> lang (deriv c r) \<longleftrightarrow> c # w \<in> lang r"
proof (induction r arbitrary: w)
  case (Times r s)
  have "c # w \<in> lang (Times r s) \<longleftrightarrow>
      (\<exists>u v. w = u @ v \<and> c # u \<in> lang r \<and> v \<in> lang s) \<or> ([] \<in> lang r \<and> c # w \<in> lang s)"
    by (auto simp add: Cons_eq_append_conv) 
  with Times show ?case by (auto simp add: nullable_lang)
next
  case (Star r)
  then show ?case by (auto simp add: iter_step)
qed auto

lemma matchWhole_lang: "matchWhole r w \<longleftrightarrow> w \<in> lang r"
  by (induction w arbitrary: r) (simp_all add: nullable_lang deriv_lang)

lemma matchPrefix_lang: "matchPrefix r w \<longleftrightarrow> (\<exists>u v. w = u @ v \<and> u \<in> lang r)"
proof (induction w arbitrary: r)
  case Nil
  show ?case by (simp add: nullable_lang)
next
  case (Cons c w)
  have "(\<exists>u v. c # w = u @ v \<and> u \<in> lang r) \<longleftrightarrow>
      [] \<in> lang r \<or> (\<exists>u v. w = u @ v \<and> c # u \<in> lang r)"
    by (auto simp add: Cons_eq_append_conv)
  then show ?case by (simp add: Cons.IH nullable_lang deriv_lang)
qed

lemma lang_Str: "lang (Str s) = {js s}"
  by (induction s) (auto simp add: Str_def Chr_def js_def)

lemma lang_schemeRe: "lang schemeRe = {js ''http://'', js ''https://''}"
  by (auto simp add: schemeRe_def lang_Str Opt_def Chr_def js_def)

text \<open>\<^verbatim>\<open>url.match(/^https?:\/\//)\<close> succeeds exactly on the inputs that start with a scheme.\<close>

lemma scheme_prefix:
  "matchPrefix schemeRe u \<longleftrightarrow> take 7 u = js ''http://'' \<or> take 8 u = js ''https://''"
proof -
  have pre: "(\<exists>v. u = p @ v) \<longleftrightarrow> take (length p) u = p" for p :: jsstring
    by (metis append_eq_conv_conj)
  have len: "length (js ''http://'') = 7" "length (js ''https://'') = 8"
    by (simp_all add: js_def)
  have "matchPrefix schemeRe u \<longleftrightarrow>
      (\<exists>v. u = js ''http://'' @ v) \<or> (\<exists>v. u = js ''https://'' @ v)"
    unfolding matchPrefix_lang lang_schemeRe by blast
  then show ?thesis
    unfolding pre len .
qed

subsection \<open>Classification of the address bar input\<close>

lemma unescaped_not_surrogate:
  "uriUnescaped c \<Longrightarrow> \<not> isLeadSurrogate c \<and> \<not> isTrailSurrogate c"
  by (auto simp add: uriUnescaped_def isLeadSurrogate_def isTrailSurrogate_def inRange_def js_def
      word_le_nat_alt)

lemma lead_not_trail: "isLeadSurrogate c \<Longrightarrow> \<not> isTrailSurrogate c"
  by (auto simp add: isLeadSurrogate_def isTrailSurrogate_def word_le_nat_alt)

lemma consR_Inr: "(\<exists>q. consR xs r = Inr q) \<longleftrightarrow> (\<exists>q. r = Inr q)"
  by (cases r) (simp_all add: consR_def)

lemma encode_wellformed:
  "(\<exists>q. encodeURIComponent u = Inr q) \<longleftrightarrow> isWellFormed u"
proof (induction u rule: encodeURIComponent.induct)
  case 1
  show ?case by simp
next
  case (2 c)
  show ?case using unescaped_not_surrogate [of c] by auto
next
  case (3 c d cs)
  show ?case
  proof (cases "uriUnescaped c")
    case True
    with 3(1) unescaped_not_surrogate [of c] show ?thesis by (simp add: consR_Inr)
  next
    case False
    show ?thesis
    proof (cases "isTrailSurrogate c")
      case True
      with False lead_not_trail [of c] show ?thesis by auto
    next
      case nt: False
      show ?thesis
      proof (cases "isLeadSurrogate c")
        case True
        with False nt 3(2) show ?thesis by (simp add: consR_Inr)
      next
        case nl: False
        with False nt 3(3) show ?thesis by (simp add: consR_Inr)
      qed
    qed
  qed
qed

lemma navigate_active:
  assumes "u \<noteq> []" and "resolveUrl u = Inr v" and "findTab (activeTabId s) s = Some t"
  shows "fst (navigate (Some u) s) = Inr ()"
    and "getCurrentUrl (snd (navigate (Some u) s)) = v"
    and "tabsArray (snd (navigate (Some u) s)) = tabsArray s"
proof -
  from assms(3) obtain a where a: "activeTabId s = Some a"
    by (cases "activeTabId s") (simp_all add: findTab_def find_never)
  let ?s' = "s\<lparr>tab_heap := (tab_heap s)(t := (tab_heap s t)\<lparr>tab_url := v\<rparr>),
      webviews := setWebviewSrc (webviewId a) v (webviews s),
      el_placeholder := map_option (\<lambda>_. DisplayNone) (el_placeholder s)\<rparr>"
  have nav: "navigate (Some u) s = (Inr (), ?s')"
    using assms a by (simp add: navigate_def loadUrl_def)
  have arr: "tabsArray ?s' = tabsArray s" by (simp add: tabsArray_def)
  have "(\<lambda>r. Some (tab_id (tab_heap ?s' r)) = activeTabId ?s')
      = (\<lambda>r. Some (tab_id (tab_heap s r)) = activeTabId s)"
    by (rule ext) auto
  then have f: "findTab (activeTabId ?s') ?s' = Some t"
    unfolding findTab_def arr using assms(3) by (simp only: findTab_def)
  show "fst (navigate (Some u) s) = Inr ()" by (simp add: nav)
  show "getCurrentUrl (snd (navigate (Some u) s)) = v"
    unfolding nav snd_conv getCurrentUrl_def f by (simp add: urlOrEmpty_def)
  show "tabsArray (snd (navigate (Some u) s)) = tabsArray s"
    by (simp add: nav tabsArray_def)
qed

lemma navigate_no_tab:
  assumes "u \<noteq> []" and "resolveUrl u = Inr v" and "activeTabId s = None"
    and "tabsArray s = []" and "el_content s"
  shows "fst (navigate (Some u) s) = Inr ()"
    and "getCurrentUrl (snd (navigate (Some u) s)) = v"
    and "tabRecords (snd (navigate (Some u) s)) =
           [\<lparr>tab_id = increment (tabCounter s), tab_url = v, tab_title = js ''New Tab''\<rparr>]"
proof -
  let ?n = "snd (newTab v s)"
  have res: "fst (newTab v s) = Inr (increment (tabCounter s))"
    using assms(5) by (simp add: newTab_result)
  have nav: "navigate (Some u) s =
      (Inr (), ?n\<lparr>el_placeholder := map_option (\<lambda>_. DisplayNone) (el_placeholder ?n)\<rparr>)"
    using assms res by (cases "newTab v s") (simp add: navigate_def loadUrl_def)
  have arr: "tabsArray ?n = [next_tab s]" using assms(4) by (simp add: newTab_tabsArray)
  have act: "activeTabId ?n = Some (increment (tabCounter s))" using assms(5) by (simp add: newTab_active)
  show "fst (navigate (Some u) s) = Inr ()" by (simp add: nav)
  show "getCurrentUrl (snd (navigate (Some u) s)) = v"
    using arr act
    by (simp add: nav getCurrentUrl_def findTab_def urlOrEmpty_def tabsArray_def newTab_heap)
  show "tabRecords (snd (navigate (Some u) s)) =
           [\<lparr>tab_id = increment (tabCounter s), tab_url = v, tab_title = js ''New Tab''\<rparr>]"
    using arr by (simp add: nav tabRecords_def tabsArray_def newTab_heap)
qed

lemmas re_defs = isValidUrl_def urlPattern_def localhostPattern_def schemeRe_def pathRe_def
  Chr_def inRange_def Str_def Opt_def Plus1_def AtLeast2_def Dot_def Digit_def
  lineTerminator_def labelChar_def letter_def

lemmas enc_defs = uriUnescaped_def isLeadSurrogate_def isTrailSurrogate_def
  percentEncode_def percentOctet_def utf8_def hexDigit_def consR_def

lemma ex_valid:
  "isValidUrl (js ''openai.com'')" "\<not> matchPrefix schemeRe (js ''openai.com'')"
  "isValidUrl (js ''localhost:3000'')" "\<not> matchPrefix schemeRe (js ''localhost:3000'')"
  "\<not> isValidUrl (js ''hello world'')"
  by (simp_all add: re_defs js_def)

lemma ex_encode: "encodeURIComponent (js ''hello world'') = Inr (js ''hello%20world'')"
  by (simp add: enc_defs inRange_def js_def)

lemma ex_encode_unicode:
  "encodeURIComponent [0xE9] = Inr (js ''%C3%A9'')"
  "encodeURIComponent [0x20AC] = Inr (js ''%E2%82%AC'')"
  "encodeURIComponent [0xD83D, 0xDE00] = Inr (js ''%F0%9F%98%80'')"
  "encodeURIComponent (js ''a&b=c/d?'') = Inr (js ''a%26b%3Dc%2Fd%3F'')"
  by (simp_all add: enc_defs inRange_def surrogatePair_def js_def)

lemma ex_wellformed: "isWellFormed (js ''hello world'')"
  by (simp add: isLeadSurrogate_def isTrailSurrogate_def js_def)

lemma ex_kept:
  "isValidUrl (js ''http://127.0.0.1:8080/x'')" "matchPrefix schemeRe (js ''http://127.0.0.1:8080/x'')"
  by (simp_all add: re_defs js_def)

text \<open>
  C2 (as the code has it). \<open>navigate\<close> with \<^verbatim>\<open>undefined\<close> or the empty string changes
  nothing. A non-empty input that matches neither pattern and has no unpaired surrogate
  resolves to the search address followed by its percent-encoding. An input that matches
  a pattern resolves to itself, with \<^verbatim>\<open>https://\<close> in front when it does not start with
  \<^verbatim>\<open>http://\<close> or \<^verbatim>\<open>https://\<close>. The resolved address becomes the address of a new tab when
  no tab is there, and of the active tab otherwise.
\<close>

theorem navigate_classifies:
  "navigate None s = (Inr (), s)
   \<and> navigate (Some []) s = (Inr (), s)
   \<and> (u \<noteq> [] \<and> \<not> isValidUrl u \<and> isWellFormed u \<longrightarrow>
        (\<exists>q. encodeURIComponent u = Inr q
           \<and> resolveUrl u = Inr (js ''https://www.google.com/search?q='' @ q)))
   \<and> (isValidUrl u \<and> \<not> matchPrefix schemeRe u \<longrightarrow> resolveUrl u = Inr (js ''https://'' @ u))
   \<and> (isValidUrl u \<and> matchPrefix schemeRe u \<longrightarrow> resolveUrl u = Inr u)
   \<and> (u \<noteq> [] \<and> resolveUrl u = Inr v \<and> activeTabId s = None \<and> tabsArray s = [] \<and> el_content s \<longrightarrow>
        fst (navigate (Some u) s) = Inr ()
        \<and> tabRecords (snd (navigate (Some u) s)) =
            [\<lparr>tab_id = increment (tabCounter s), tab_url = v, tab_title = js ''New Tab''\<rparr>]
        \<and> getCurrentUrl (snd (navigate (Some u) s)) = v)
   \<and> (u \<noteq> [] \<and> resolveUrl u = Inr v \<and> findTab (activeTabId s) s \<noteq> None \<longrightarrow>
        fst (navigate (Some u) s) = Inr ()
        \<and> tabsArray (snd (navigate (Some u) s)) = tabsArray s
        \<and> getCurrentUrl (snd (navigate (Some u) s)) = v)"
proof -
  have search: "\<exists>q. encodeURIComponent u = Inr q
       \<and> resolveUrl u = Inr (js ''https://www.google.com/search?q='' @ q)"
    if "\<not> isValidUrl u" "isWellFormed u"
  proof -
    from that(2) obtain q where "encodeURIComponent u = Inr q"
      using encode_wellformed [of u] by blast
    with that(1) show ?thesis by (simp add: resolveUrl_def consR_def)
  qed
  have direct: "resolveUrl u = Inr (js ''https://'' @ u)" if "isValidUrl u" "\<not> matchPrefix schemeRe u"
    using that by (simp add: resolveUrl_def)
  have kept: "resolveUrl u = Inr u" if "isValidUrl u" "matchPrefix schemeRe u"
    using that by (simp add: resolveUrl_def)
  have empty: "navigate None s = (Inr (), s)" "navigate (Some []) s = (Inr (), s)"
    by (simp_all add: navigate_def)
  from search direct kept empty navigate_no_tab [of u v s] navigate_active [of u v s]
  show ?thesis by blast
qed

theorem navigate_classifies_witness:
  "navigate (Some []) newShell = (Inr (), newShell)
   \<and> resolveUrl (js ''hello world'') = Inr (js ''https://www.google.com/search?q=hello%20world'')
   \<and> resolveUrl (js ''openai.com'') = Inr (js ''https://openai.com'')
   \<and> resolveUrl (js ''localhost:3000'') = Inr (js ''https://localhost:3000'')
   \<and> resolveUrl (js ''http://127.0.0.1:8080/x'') = Inr (js ''http://127.0.0.1:8080/x'')
   \<and> getCurrentUrl (snd (navigate (Some (js ''openai.com'')) newShell)) = js ''https://openai.com''
   \<and> getCurrentUrl (snd (navigate (Some (js ''localhost:3000'')) shellA)) =
       js ''https://localhost:3000''"
proof -
  have ne: "js ''hello world'' \<noteq> []" "js ''openai.com'' \<noteq> []" "js ''localhost:3000'' \<noteq> []"
    by (simp_all add: js_def)
  have act: "findTab (activeTabId shellA) shellA \<noteq> None"
    by (simp add: findTab_def shellA_fields)
  note search = navigate_classifies [of newShell "js ''hello world''"]
  note kept = navigate_classifies [of newShell "js ''http://127.0.0.1:8080/x''"]
  have r1: "resolveUrl (js ''hello world'') = Inr (js ''https://www.google.com/search?q=hello%20world'')"
    using search ne ex_valid ex_wellformed ex_encode by (auto simp add: js_def)
  have r2: "resolveUrl (js ''openai.com'') = Inr (js ''https://openai.com'')"
    using navigate_classifies [of newShell "js ''openai.com''"] ex_valid by (simp add: js_def)
  have r3: "resolveUrl (js ''localhost:3000'') = Inr (js ''https://localhost:3000'')"
    using navigate_classifies [of shellA "js ''localhost:3000''"] ex_valid by (simp add: js_def)
  have r4: "resolveUrl (js ''http://127.0.0.1:8080/x'') = Inr (js ''http://127.0.0.1:8080/x'')"
    using kept ex_kept by simp
  have n1: "getCurrentUrl (snd (navigate (Some (js ''openai.com'')) newShell)) = js ''https://openai.com''"
    using navigate_classifies [of newShell "js ''openai.com''" "js ''https://openai.com''"] r2 ne
    by (simp add: newShell_fields)
  have n2: "getCurrentUrl (snd (navigate (Some (js ''localhost:3000'')) shellA)) =
       js ''https://localhost:3000''"
    using navigate_classifies [of shellA "js ''localhost:3000''" "js ''https://localhost:3000''"]
      r3 ne act by simp
  from search r1 r2 r3 r4 n1 n2 show ?thesis by simp
qed

text \<open>
  C2 as stated fails for an input with an unpaired surrogate: it matches neither pattern,
  \<^verbatim>\<open>encodeURIComponent\<close> raises \<^verbatim>\<open>URIError\<close>, and \<open>navigate\<close> raises it in turn without
  loading anything.
\<close>

theorem navigate_lone_surrogate:
  "[0xD800] \<noteq> ([] :: jsstring) \<and> \<not> isValidUrl [0xD800]
   \<and> navigate (Some [0xD800]) newShell = (Inl URIError, newShell)"
  by (simp add: navigate_def resolveUrl_def enc_defs re_defs js_def)

end
